theory Spec2Isabelle
  imports Complex_Main
begin

section \<open>Python's \<open>Decimal\<close> under the default context\<close>

text \<open>
  Amounts are \<open>decimal.Decimal\<close> values: a signed integer coefficient and an exponent,
  standing for \<open>coefficient * 10 ^ exponent\<close>. The source never changes the arithmetic
  context, so every arithmetic result is rounded to 28 significant digits, half to even.
  Only finite values are modelled (no NaN, no infinity).
\<close>

record decimal =
  coefficient :: int
  exponent :: int

definition dec_val :: "decimal \<Rightarrow> rat" where
  "dec_val d =
     (if 0 \<le> exponent d then of_int (coefficient d) * 10 ^ nat (exponent d)
      else of_int (coefficient d) / 10 ^ nat (- exponent d))"

fun ndigits :: "nat \<Rightarrow> nat" where
  "ndigits n = (if n < 10 then 1 else Suc (ndigits (n div 10)))"

declare ndigits.simps [simp del]

definition prec :: nat where
  "prec = 28"

text \<open>Dropping the last \<open>d\<close> digits of \<open>c\<close> with ROUND_HALF_EVEN (for \<open>d > 0\<close>).\<close>

definition round_half_even :: "nat \<Rightarrow> nat \<Rightarrow> nat" where
  "round_half_even c d =
     (let q = c div 10 ^ d; r = c mod 10 ^ d; half = 5 * 10 ^ (d - 1)
      in if half < r \<or> (r = half \<and> odd q) then q + 1 else q)"

text \<open>
  The context's rounding of an exact result: a coefficient of more than \<open>prec\<close> digits
  loses its excess digits; a carry to \<open>10 ^ prec\<close> is renormalised.
\<close>

definition context_round :: "decimal \<Rightarrow> decimal" where
  "context_round x =
     (let c = nat \<bar>coefficient x\<bar>; n = ndigits c
      in if n \<le> prec then x
         else let d = n - prec; q = round_half_even c d
              in if q = 10 ^ prec
                 then \<lparr>coefficient = sgn (coefficient x) * 10 ^ (prec - 1),
                        exponent = exponent x + int d + 1\<rparr>
                 else \<lparr>coefficient = sgn (coefficient x) * int q,
                        exponent = exponent x + int d\<rparr>)"

definition mul_exact :: "decimal \<Rightarrow> decimal \<Rightarrow> decimal" where
  "mul_exact a b =
     \<lparr>coefficient = coefficient a * coefficient b, exponent = exponent a + exponent b\<rparr>"

definition sub_exact :: "decimal \<Rightarrow> decimal \<Rightarrow> decimal" where
  "sub_exact a b =
     (let e = min (exponent a) (exponent b)
      in \<lparr>coefficient = coefficient a * 10 ^ nat (exponent a - e)
                         - coefficient b * 10 ^ nat (exponent b - e),
          exponent = e\<rparr>)"

definition dec_mul :: "decimal \<Rightarrow> decimal \<Rightarrow> decimal" where
  "dec_mul a b = context_round (mul_exact a b)"

definition dec_sub :: "decimal \<Rightarrow> decimal \<Rightarrow> decimal" where
  "dec_sub a b = context_round (sub_exact a b)"

text \<open>Comparison of two decimals is by numeric value.\<close>

definition dec_less :: "decimal \<Rightarrow> decimal \<Rightarrow> bool" where
  "dec_less a b = (dec_val a < dec_val b)"


section \<open>Data model (models.py)\<close>

text \<open>
  Timestamps are \<open>datetime\<close> values, counted in microseconds. Nullable columns are
  options. The surrogate keys of pool, log and alert rows are never read by the code and
  are left out.
\<close>

type_synonym datetime = int

definition minutes :: "int \<Rightarrow> int" where
  "minutes n = n * 60000000"

definition hours :: "int \<Rightarrow> int" where
  "hours n = n * 3600000000"

definition days :: "int \<Rightarrow> int" where
  "days n = n * 86400000000"

datatype TransactionStatus = PENDING | MIXING | COMPLETED | FAILED | CANCELLED

text \<open>
  Exceptions, as values. \<open>RpcError m\<close> is an error raised by a call to the wallet
  backend, with message \<open>m\<close>; \<open>DataError\<close> is the database refusing a value at a
  commit; \<open>InvalidOperation\<close> is the decimal module's; the others are raised by the
  interpreter.
\<close>

datatype error =
  RpcError string
  | DataError
  | InvalidOperation
  | AttributeError
  | IndexError
  | ValueError
  | NameError

subsection \<open>\<open>Numeric(16, 8)\<close> columns\<close>

text \<open>
  The amounts of a transaction are stored in \<open>Numeric(16, 8)\<close> columns. At the commit
  the database rounds the value to 8 decimal places, a half away from zero, and refuses
  a rounded value of \<open>10 ^ 8\<close> or more; an object read after the commit carries the
  stored value.
\<close>

definition quantize8 :: "decimal \<Rightarrow> decimal" where
  "quantize8 d =
     (if - 8 \<le> exponent d
      then \<lparr>coefficient = coefficient d * 10 ^ nat (exponent d + 8), exponent = - 8\<rparr>
      else let k = nat (- 8 - exponent d);
               q = (nat \<bar>coefficient d\<bar> + 5 * 10 ^ (k - 1)) div 10 ^ k
           in \<lparr>coefficient = sgn (coefficient d) * int q, exponent = - 8\<rparr>)"

definition numeric_16_8 :: "decimal \<Rightarrow> error + decimal" where
  "numeric_16_8 d =
     (let q = quantize8 d
      in if 10 ^ 16 \<le> \<bar>coefficient q\<bar> then Inl DataError else Inr q)"



record MixingTransaction =
  tx_id :: string
  session_id :: string
  input_amount :: decimal
  fee_amount :: decimal
  output_amount :: decimal
  input_address :: string
  output_address :: string
  mixing_address :: "string option"
  status :: TransactionStatus
  mixing_rounds_completed :: int
  input_txid :: "string option"
  output_txid :: "string option"
  created_at :: datetime
  mixing_started_at :: "datetime option"
  completed_at :: "datetime option"
  scheduled_output_time :: "datetime option"
  ip_hash :: "string option"
  user_agent_hash :: "string option"
  error_message :: "error option"
  retry_count :: int

record MixingPool =
  pool_address :: string
  pool_balance :: decimal
  last_used :: "datetime option"
  is_active :: bool
  pool_created_at :: datetime

text \<open>
  The action label of a log row. \<open>MIXING_ROUND n\<close> is the label
  \<open>MIXING_ROUND_<n>\<close>.
\<close>

datatype action =
  CREATED
  | PAYMENT_RECEIVED
  | MIXING_ROUND int
  | OUTPUT_SCHEDULED
  | OUTPUT_SENT

text \<open>
  A value of the JSON detail payload. Where the source stores \<open>str(x)\<close> of a number,
  the model keeps the number: \<open>DecimalText\<close> for a Decimal, \<open>FloatText\<close> for a
  float, \<open>TimeText\<close> for an ISO timestamp.
\<close>

datatype detail =
  Text string
  | DecimalText decimal
  | FloatText rat
  | TimeText datetime
  | Number int
  | Null

record MixingLog =
  transaction_id :: "string option"
  timestamp :: datetime
  action :: action
  details :: "(string \<times> detail) list"

record SecurityAlert =
  alert_type :: string
  severity :: string
  alert_ip_hash :: "string option"
  alert_details :: "(string \<times> detail) list"
  telegram_sent :: bool
  alert_created_at :: datetime

section \<open>Configuration (config.py)\<close>

text \<open>
  The settings the engine reads. The amount bounds and the fee rate are floats in the
  configuration and reach the code as \<open>Decimal(str(x))\<close>; the fields below hold that
  decimal.
\<close>

record Config =
  MIN_AMOUNT :: decimal
  MAX_AMOUNT :: decimal
  FEE_PERCENT :: decimal
  MIXING_ROUNDS :: int
  DELAY_MINUTES_MIN :: int
  DELAY_MINUTES_MAX :: int

section \<open>The outside world\<close>

text \<open>
  The wallet backend is a remote service. Every call the code makes is appended to
  \<open>rpc_trace\<close>; the answer to a call is given by an oracle that sees the number of calls
  made before it and the call's arguments, so any sequence of answers can be described.
  \<open>Inl m\<close> is an exception with message \<open>m\<close>.
\<close>

datatype rpc_call =
  Getnewaddress string
  | Getreceivedbyaddress string
  | Listreceivedbyaddress string
  | Sendtoaddress string rat
  | Validateaddress string

text \<open>
  \<open>listreceivedbyaddress\<close> answers with a list of entries, each reduced to its
  \<open>txids\<close> list. \<open>validateaddress\<close> answers with a dictionary, reduced to its
  \<open>isvalid\<close> entry (\<open>None\<close> when the key is absent). \<open>py_float d\<close> is the value
  of \<open>float(d)\<close> and \<open>hop_amount d\<close> that of \<open>float(d) * 0.99\<close>: floating point
  is not modelled, a float is the rational it denotes. \<open>random_source k\<close> feeds the
  \<open>k\<close>-th draw from the random module.
\<close>

record env =
  getnewaddress :: "nat \<Rightarrow> string \<Rightarrow> string + string"
  getreceivedbyaddress :: "nat \<Rightarrow> string \<Rightarrow> string + rat"
  listreceivedbyaddress :: "nat \<Rightarrow> string \<Rightarrow> string + string list list"
  sendtoaddress :: "nat \<Rightarrow> string \<Rightarrow> rat \<Rightarrow> string + string"
  validateaddress :: "nat \<Rightarrow> string \<Rightarrow> string + bool option"
  py_float :: "decimal \<Rightarrow> rat"
  hop_amount :: "decimal \<Rightarrow> rat"
  random_source :: "nat \<Rightarrow> nat"

text \<open>
  The database tables, with the trace of backend calls and the number of random draws
  made so far. Persistence itself never fails in this model.
\<close>

record state =
  transactions :: "MixingTransaction list"
  pools :: "MixingPool list"
  logs :: "MixingLog list"
  alerts :: "SecurityAlert list"
  rpc_trace :: "rpc_call list"
  random_draws :: nat

definition init_state :: state where
  "init_state =
     \<lparr>transactions = [], pools = [], logs = [], alerts = [], rpc_trace = [],
      random_draws = 0\<rparr>"

text \<open>\<open>MixingTransaction.query.get(id)\<close> and the write-back of a loaded row.\<close>

definition get_tx :: "state \<Rightarrow> string \<Rightarrow> MixingTransaction option" where
  "get_tx s i = find (\<lambda>t. tx_id t = i) (transactions s)"

definition put_tx :: "MixingTransaction \<Rightarrow> state \<Rightarrow> state" where
  "put_tx t s =
     s\<lparr>transactions := map (\<lambda>u. if tx_id u = tx_id t then t else u) (transactions s)\<rparr>"

definition called :: "rpc_call \<Rightarrow> state \<Rightarrow> state" where
  "called c s = s\<lparr>rpc_trace := rpc_trace s @ [c]\<rparr>"

text \<open>\<open>random.choice(xs)\<close> and \<open>random.randint(a, b)\<close> on the draw \<open>r\<close>.\<close>

definition random_choice :: "nat \<Rightarrow> 'a list \<Rightarrow> error + 'a" where
  "random_choice r xs = (if xs = [] then Inl IndexError else Inr (xs ! (r mod length xs)))"

definition random_randint :: "nat \<Rightarrow> int \<Rightarrow> int \<Rightarrow> error + int" where
  "random_randint r a b =
     (if b < a then Inl ValueError else Inr (a + int r mod (b - a + 1)))"

section \<open>The mixing service (mixing_service.py)\<close>

text \<open>\<open>_log_action\<close>: one more row of the audit log.\<close>

definition log_action ::
  "datetime \<Rightarrow> string \<Rightarrow> action \<Rightarrow> (string \<times> detail) list \<Rightarrow> state \<Rightarrow> state" where
  "log_action now tid a ds s =
     s\<lparr>logs := logs s @
        [\<lparr>transaction_id = Some tid, timestamp = now, action = a, details = ds\<rparr>]\<rparr>"

definition validate_bitcoin_address :: "env \<Rightarrow> string \<Rightarrow> state \<Rightarrow> state \<times> bool" where
  "validate_bitcoin_address e a s =
     (let s1 = called (Validateaddress a) s
      in case validateaddress e (length (rpc_trace s)) a of
           Inl m \<Rightarrow> (s1, False)
         | Inr r \<Rightarrow> (s1, (case r of None \<Rightarrow> False | Some b \<Rightarrow> b)))"

text \<open>
  The pool query: active entries, least recently used first, at most \<open>count\<close> of them.
  Entries never used (\<open>last_used\<close> null) come last, as PostgreSQL orders them; ties keep
  the table's order.
\<close>

definition query_pools :: "nat \<Rightarrow> state \<Rightarrow> MixingPool list" where
  "query_pools count s =
     (let act = filter is_active (pools s)
      in take count
           (sort_key (\<lambda>p. the (last_used p)) (filter (\<lambda>p. last_used p \<noteq> None) act)
            @ filter (\<lambda>p. last_used p = None) act))"

definition new_pool :: "datetime \<Rightarrow> string \<Rightarrow> MixingPool" where
  "new_pool now a =
     \<lparr>pool_address = a, pool_balance = \<lparr>coefficient = 0, exponent = 0\<rparr>,
      last_used = None, is_active = True, pool_created_at = now\<rparr>"

text \<open>
  The loop that asks the backend for \<open>n\<close> new pool addresses. A failing call raises out
  of the loop; the entries added before it stay in the session.
\<close>

fun generate_pools :: "env \<Rightarrow> datetime \<Rightarrow> nat \<Rightarrow> state \<Rightarrow> state \<times> (error + unit)" where
  "generate_pools e now 0 s = (s, Inr ())"
| "generate_pools e now (Suc n) s =
     (let s1 = called (Getnewaddress ''mixing_pool'') s
      in case getnewaddress e (length (rpc_trace s)) ''mixing_pool'' of
           Inl m \<Rightarrow> (s1, Inl (RpcError m))
         | Inr a \<Rightarrow> generate_pools e now n (s1\<lparr>pools := pools s1 @ [new_pool now a]\<rparr>))"

definition get_mixing_pool_addresses ::
  "env \<Rightarrow> datetime \<Rightarrow> nat \<Rightarrow> state \<Rightarrow> state \<times> (error + string list)" where
  "get_mixing_pool_addresses e now count s =
     (let found = query_pools count s
      in if length found < count
         then (case generate_pools e now (count - length found) s of
                 (s1, Inl err) \<Rightarrow> (s1, Inl err)
               | (s1, Inr u) \<Rightarrow> (s1, Inr (map pool_address (query_pools count s1))))
         else (s, Inr (map pool_address found)))"

text \<open>
  \<open>create_mixing_transaction\<close>. \<open>new_id\<close> is the identifier \<open>uuid4\<close> draws. An
  exception of the backend or of \<open>randint\<close> leaves the function before anything is
  stored. The commit stores the three amounts as the \<open>Numeric(16, 8)\<close> columns take
  them, or fails with \<open>DataError\<close> and stores nothing; the transaction returned is the
  row as stored. The log entry renders the argument, not the column. The length limits
  of the string columns are not modelled.
\<close>

definition create_mixing_transaction ::
  "Config \<Rightarrow> env \<Rightarrow> datetime \<Rightarrow> string \<Rightarrow> decimal \<Rightarrow> string \<Rightarrow> string \<Rightarrow> string \<Rightarrow> string
     \<Rightarrow> state \<Rightarrow> state \<times> (error + MixingTransaction)" where
  "create_mixing_transaction cfg e now new_id amount out_addr sid ip ua s =
     (let fee = dec_mul amount (FEE_PERCENT cfg);
          out = dec_sub amount fee;
          s1 = called (Getnewaddress ''mixer_input'') s
      in case getnewaddress e (length (rpc_trace s)) ''mixer_input'' of
           Inl m \<Rightarrow> (s1, Inl (RpcError m))
         | Inr in_addr \<Rightarrow>
             (case random_randint (random_source e (random_draws s1))
                     (DELAY_MINUTES_MIN cfg) (DELAY_MINUTES_MAX cfg) of
                Inl err \<Rightarrow> (s1, Inl err)
              | Inr delay_minutes \<Rightarrow>
                  (let s2 = s1\<lparr>random_draws := Suc (random_draws s1)\<rparr>
                   in case numeric_16_8 amount of
                        Inl err \<Rightarrow> (s2, Inl err)
                      | Inr stored_amount \<Rightarrow>
                      (case numeric_16_8 fee of
                        Inl err \<Rightarrow> (s2, Inl err)
                      | Inr stored_fee \<Rightarrow>
                      (case numeric_16_8 out of
                        Inl err \<Rightarrow> (s2, Inl err)
                      | Inr stored_out \<Rightarrow>
                          (let t = \<lparr>tx_id = new_id, session_id = sid,
                                    input_amount = stored_amount, fee_amount = stored_fee,
                                    output_amount = stored_out, input_address = in_addr,
                                    output_address = out_addr, mixing_address = None,
                                    status = PENDING, mixing_rounds_completed = 0,
                                    input_txid = None, output_txid = None, created_at = now,
                                    mixing_started_at = None, completed_at = None,
                                    scheduled_output_time = Some (now + minutes delay_minutes),
                                    ip_hash = Some ip, user_agent_hash = Some ua,
                                    error_message = None, retry_count = 0\<rparr>;
                               s3 = s2\<lparr>transactions := transactions s2 @ [t]\<rparr>;
                               s4 = log_action now new_id CREATED
                                      [(''input_amount'', DecimalText amount),
                                       (''output_address'', Text out_addr),
                                       (''delay_minutes'', Number delay_minutes)] s3
                           in (s4, Inr t)))))))"

text \<open>
  \<open>check_incoming_payment\<close>. An exception of either backend call is caught and logged;
  the function then returns False.
\<close>

definition check_incoming_payment :: "env \<Rightarrow> datetime \<Rightarrow> string \<Rightarrow> state \<Rightarrow> state \<times> bool" where
  "check_incoming_payment e now tid s =
     (case get_tx s tid of
        None \<Rightarrow> (s, False)
      | Some t \<Rightarrow>
          (let s1 = called (Getreceivedbyaddress (input_address t)) s
           in case getreceivedbyaddress e (length (rpc_trace s)) (input_address t) of
                Inl m \<Rightarrow> (s1, False)
              | Inr received \<Rightarrow>
                  if py_float e (input_amount t) \<le> received
                  then (let s2 = called (Listreceivedbyaddress (input_address t)) s1
                        in case listreceivedbyaddress e (length (rpc_trace s1))
                                  (input_address t) of
                             Inl m \<Rightarrow> (s2, False)
                           | Inr txlist \<Rightarrow>
                               (let t1 = (case txlist of
                                            (txid # rest) # others \<Rightarrow> t\<lparr>input_txid := Some txid\<rparr>
                                          | _ \<Rightarrow> t);
                                    t2 = t1\<lparr>status := MIXING, mixing_started_at := Some now\<rparr>;
                                    s3 = log_action now (tx_id t) PAYMENT_RECEIVED
                                           [(''amount'', FloatText received),
                                            (''txid'', (case input_txid t2 of
                                                          None \<Rightarrow> Null | Some x \<Rightarrow> Text x))]
                                           (put_tx t2 s2)
                                in (s3, True)))
                  else (s1, False)))"

text \<open>
  \<open>_schedule_output_transaction\<close> reads \<open>scheduled_output_time.isoformat()\<close>: on a
  null column that is an AttributeError.
\<close>

definition schedule_output_transaction ::
  "datetime \<Rightarrow> MixingTransaction \<Rightarrow> state \<Rightarrow> error + state" where
  "schedule_output_transaction now t s =
     (case scheduled_output_time t of
        None \<Rightarrow> Inl AttributeError
      | Some st \<Rightarrow>
          Inr (log_action now (tx_id t) OUTPUT_SCHEDULED
                 [(''scheduled_time'', TimeText st),
                  (''output_address'', Text (output_address t))] s))"

text \<open>
  The \<open>except\<close> branch of \<open>perform_mixing_round\<close>, on the row as the exception found
  it.
\<close>

definition fail_round :: "error \<Rightarrow> MixingTransaction \<Rightarrow> state \<Rightarrow> state" where
  "fail_round err t s = put_tx (t\<lparr>status := FAILED, error_message := Some err\<rparr>) s"

definition perform_mixing_round ::
  "Config \<Rightarrow> env \<Rightarrow> datetime \<Rightarrow> string \<Rightarrow> state \<Rightarrow> state \<times> bool" where
  "perform_mixing_round cfg e now tid s =
     (case get_tx s tid of
        None \<Rightarrow> (s, False)
      | Some t \<Rightarrow>
          if status t \<noteq> MIXING then (s, False)
          else
            (case get_mixing_pool_addresses e now 5 s of
               (s1, Inl err) \<Rightarrow> (fail_round err t s1, False)
             | (s1, Inr pool_addresses) \<Rightarrow>
                 (let s2 = s1\<lparr>random_draws := Suc (random_draws s1)\<rparr>
                  in case random_choice (random_source e (random_draws s1)) pool_addresses of
                       Inl err \<Rightarrow> (fail_round err t s2, False)
                     | Inr chosen \<Rightarrow>
                         (let from_address =
                                (if mixing_rounds_completed t = 0 then Some (input_address t)
                                 else mixing_address t);
                              amount_to_send = hop_amount e (output_amount t);
                              t1 = t\<lparr>mixing_address := Some chosen,
                                     mixing_rounds_completed := mixing_rounds_completed t + 1\<rparr>;
                              s3 = log_action now (tx_id t)
                                     (MIXING_ROUND (mixing_rounds_completed t1))
                                     [(''from'', (case from_address of
                                                    None \<Rightarrow> Null | Some a \<Rightarrow> Text a)),
                                      (''to'', Text chosen),
                                      (''amount'', FloatText amount_to_send)]
                                     (put_tx t1 s2)
                          in if MIXING_ROUNDS cfg \<le> mixing_rounds_completed t1
                             then (let t2 = t1\<lparr>status := COMPLETED, completed_at := Some now\<rparr>
                                   in case schedule_output_transaction now t2 (put_tx t2 s3) of
                                        Inl err \<Rightarrow> (fail_round err t2 s3, False)
                                      | Inr s4 \<Rightarrow> (s4, True))
                             else (s3, True)))))"

definition send_output_transaction :: "env \<Rightarrow> datetime \<Rightarrow> string \<Rightarrow> state \<Rightarrow> state \<times> bool" where
  "send_output_transaction e now tid s =
     (case get_tx s tid of
        None \<Rightarrow> (s, False)
      | Some t \<Rightarrow>
          if status t \<noteq> COMPLETED then (s, False)
          else
            (let amt = py_float e (output_amount t);
                 s1 = called (Sendtoaddress (output_address t) amt) s
             in case sendtoaddress e (length (rpc_trace s)) (output_address t) amt of
                  Inl m \<Rightarrow>
                    (put_tx (t\<lparr>error_message := Some (RpcError m),
                               retry_count := retry_count t + 1\<rparr>) s1, False)
                | Inr txid \<Rightarrow>
                    (let t1 = t\<lparr>output_txid := Some txid\<rparr>;
                         s2 = log_action now (tx_id t) OUTPUT_SENT
                                [(''txid'', Text txid),
                                 (''amount'', DecimalText (output_amount t)),
                                 (''address'', Text (output_address t))]
                                (put_tx t1 s1)
                     in (s2, True))))"

section \<open>The scheduled tasks (tasks.py)\<close>

text \<open>
  A task loads its rows with one query and then walks the result. A loaded row is the
  session's live object, so what the loop reads of it is the row's current state; the
  loops below walk the identifiers of the query's result and read the row from the state.
\<close>

definition pending_txs :: "datetime \<Rightarrow> state \<Rightarrow> MixingTransaction list" where
  "pending_txs now s =
     filter (\<lambda>t. status t = PENDING \<and> now - hours 24 \<le> created_at t) (transactions s)"

text \<open>
  \<open>check_pending_payments\<close>: the second component lists the transactions handed to
  \<open>process_mixing.delay\<close>, in order.
\<close>

fun check_pending_loop :: "env \<Rightarrow> datetime \<Rightarrow> string list \<Rightarrow> state \<Rightarrow> state \<times> string list" where
  "check_pending_loop e now [] s = (s, [])"
| "check_pending_loop e now (i # ids) s =
     (case check_incoming_payment e now i s of
        (s1, received) \<Rightarrow>
          (case check_pending_loop e now ids s1 of
             (s2, queued) \<Rightarrow> (s2, if received then i # queued else queued)))"

definition check_pending_payments :: "env \<Rightarrow> datetime \<Rightarrow> state \<Rightarrow> state \<times> string list" where
  "check_pending_payments e now s = check_pending_loop e now (map tx_id (pending_txs now s)) s"

datatype task_result =
  NotReady
  | MixingFailed
  | MixingCompleted
  | TaskError error

text \<open>
  \<open>process_mixing\<close>. tasks.py never imports \<open>random\<close>: after a round that succeeds,
  \<open>random.randint(60, 300)\<close> raises NameError, which the task's \<open>except\<close> catches.
  The body of the \<open>while\<close> loop therefore runs at most once.
\<close>

definition process_mixing ::
  "Config \<Rightarrow> env \<Rightarrow> datetime \<Rightarrow> string \<Rightarrow> state \<Rightarrow> state \<times> task_result" where
  "process_mixing cfg e now tid s =
     (case get_tx s tid of
        None \<Rightarrow> (s, NotReady)
      | Some t \<Rightarrow>
          if status t \<noteq> MIXING then (s, NotReady)
          else if mixing_rounds_completed t < MIXING_ROUNDS cfg
          then (case perform_mixing_round cfg e now tid s of
                  (s1, ok) \<Rightarrow> if \<not> ok then (s1, MixingFailed) else (s1, TaskError NameError))
          else (s, MixingCompleted))"

definition mixing_txs :: "state \<Rightarrow> MixingTransaction list" where
  "mixing_txs s = filter (\<lambda>t. status t = MIXING) (transactions s)"

fun mixing_rounds_loop :: "Config \<Rightarrow> env \<Rightarrow> datetime \<Rightarrow> string list \<Rightarrow> state \<Rightarrow> state" where
  "mixing_rounds_loop cfg e now [] s = s"
| "mixing_rounds_loop cfg e now (i # ids) s =
     (case get_tx s i of
        None \<Rightarrow> mixing_rounds_loop cfg e now ids s
      | Some t \<Rightarrow>
          if mixing_rounds_completed t < MIXING_ROUNDS cfg
          then mixing_rounds_loop cfg e now ids (fst (perform_mixing_round cfg e now i s))
          else mixing_rounds_loop cfg e now ids s)"

definition process_mixing_rounds :: "Config \<Rightarrow> env \<Rightarrow> datetime \<Rightarrow> state \<Rightarrow> state \<times> nat" where
  "process_mixing_rounds cfg e now s =
     (mixing_rounds_loop cfg e now (map tx_id (mixing_txs s)) s, length (mixing_txs s))"

text \<open>
  The payout-due query: completed, due, and with no payout reference yet. A null
  \<open>scheduled_output_time\<close> never compares as due.
\<close>

definition ready_txs :: "datetime \<Rightarrow> state \<Rightarrow> MixingTransaction list" where
  "ready_txs now s =
     filter (\<lambda>t. status t = COMPLETED
                \<and> (case scheduled_output_time t of None \<Rightarrow> False | Some st \<Rightarrow> st \<le> now)
                \<and> output_txid t = None)
       (transactions s)"

fun outputs_loop :: "env \<Rightarrow> datetime \<Rightarrow> string list \<Rightarrow> state \<Rightarrow> state" where
  "outputs_loop e now [] s = s"
| "outputs_loop e now (i # ids) s = outputs_loop e now ids (fst (send_output_transaction e now i s))"

definition send_scheduled_outputs :: "env \<Rightarrow> datetime \<Rightarrow> state \<Rightarrow> state \<times> nat" where
  "send_scheduled_outputs e now s =
     (outputs_loop e now (map tx_id (ready_txs now s)) s, length (ready_txs now s))"

text \<open>
  \<open>cleanup_old_transactions\<close>. The log relationship declares no delete cascade, so the
  ORM detaches the log rows of a deleted transaction (their foreign key becomes null)
  rather than deleting them. The result is the count the task reports.
\<close>

definition cleanup_old_transactions :: "datetime \<Rightarrow> state \<Rightarrow> state \<times> nat" where
  "cleanup_old_transactions now s =
     (let cutoff_date = now - days 30;
          old_txs = filter (\<lambda>t. created_at t < cutoff_date) (transactions s);
          old_ids = set (map tx_id old_txs)
      in (s\<lparr>transactions := filter (\<lambda>t. \<not> created_at t < cutoff_date) (transactions s),
            logs := map (\<lambda>l. case transaction_id l of
                                None \<Rightarrow> l
                              | Some i \<Rightarrow> if i \<in> old_ids then l\<lparr>transaction_id := None\<rparr> else l)
                      (logs s),
            alerts := filter (\<lambda>a. \<not> alert_created_at a < cutoff_date) (alerts s)\<rparr>,
          length old_txs))"

section \<open>The web layer (mixer_service.py)\<close>

text \<open>
  The amount field of a submitted form, as \<open>DecimalField\<close> parses it: no data (the
  field is missing or does not parse), a finite Decimal, a NaN, or an infinity
  (\<open>Infinite True\<close> the positive one). \<open>form_output_address\<close> is the raw string.
\<close>

datatype form_decimal =
  NoData
  | Amount decimal
  | NotANumber
  | Infinite bool

record MixerForm =
  is_submitted :: bool
  form_amount :: form_decimal
  form_output_address :: string

text \<open>
  The characters \<open>str.strip\<close> removes. A \<open>char\<close> is read as the code point of its
  number, so the strings of the model are those of code points below 256: the ASCII
  whitespace, the four separators 28 to 31, NEL (133) and the no-break space (160).
\<close>

definition is_space :: "char \<Rightarrow> bool" where
  "is_space c = ((of_char c :: nat) \<in> {9, 10, 11, 12, 13, 28, 29, 30, 31, 32, 133, 160})"

text \<open>
  \<open>DataRequired\<close> stops the chain of a field whose data is falsy (no data, a zero
  Decimal, a string that is empty after \<open>strip\<close>); only then do the form's own
  \<open>validate_amount\<close> and \<open>validate_output_address\<close> run. An ordering comparison
  with a NaN raises InvalidOperation, which is no ValidationError and leaves the form's
  validation as an exception; an infinity is above or below the finite bounds.
\<close>

definition validate_amount :: "Config \<Rightarrow> decimal \<Rightarrow> bool" where
  "validate_amount cfg a =
     (if dec_less a (MIN_AMOUNT cfg) then False
      else if dec_less (MAX_AMOUNT cfg) a then False
      else True)"

definition amount_field_ok :: "Config \<Rightarrow> form_decimal \<Rightarrow> error + bool" where
  "amount_field_ok cfg d =
     (case d of
        NoData \<Rightarrow> Inr False
      | Amount a \<Rightarrow> Inr (if coefficient a = 0 then False else validate_amount cfg a)
      | NotANumber \<Rightarrow> Inl InvalidOperation
      | Infinite positive \<Rightarrow> Inr False)"

definition validate_output_address :: "env \<Rightarrow> string \<Rightarrow> state \<Rightarrow> state \<times> bool" where
  "validate_output_address e a s =
     (if \<forall>c \<in> set a. is_space c then (s, False) else validate_bitcoin_address e a s)"

text \<open>
  \<open>form.validate_on_submit()\<close>: the fields are validated in the order of their
  declaration, and every field is validated even when an earlier one failed. The CSRF
  token, which the default (development) configuration turns off, and the rate limiter
  are not modelled.
\<close>

definition validate_on_submit ::
  "Config \<Rightarrow> env \<Rightarrow> MixerForm \<Rightarrow> state \<Rightarrow> state \<times> (error + bool)" where
  "validate_on_submit cfg e f s =
     (if \<not> is_submitted f then (s, Inr False)
      else (case amount_field_ok cfg (form_amount f) of
              Inl err \<Rightarrow> (s, Inl err)
            | Inr amount_ok \<Rightarrow>
                (case validate_output_address e (form_output_address f) s of
                   (s1, address_ok) \<Rightarrow> (s1, Inr (amount_ok \<and> address_ok)))))"

text \<open>
  \<open>check_suspicious_activity\<close> evaluates \<open>timedelta(hours=1)\<close>, a name
  mixer_service.py never imports: the call raises NameError before it reads anything.
\<close>

definition check_suspicious_activity :: "string \<Rightarrow> string \<Rightarrow> state \<Rightarrow> error + bool" where
  "check_suspicious_activity ip ua s = Inl NameError"

datatype response =
  FormPage
  | ConfirmPage MixingTransaction
  | Abort nat
  | PaymentJson bool TransactionStatus

text \<open>
  The handler of the \<open>/mixer\<close> route, as a function of the request, with the activity
  check it calls as its first argument. An exception of the form's validation leaves
  the handler and is answered with the error page 500; every exception inside the
  handler's \<open>try\<close>, the \<open>abort(429)\<close> included, ends in \<open>abort(500)\<close>.
\<close>

definition mixer_with ::
  "(string \<Rightarrow> string \<Rightarrow> state \<Rightarrow> error + bool)
     \<Rightarrow> Config \<Rightarrow> env \<Rightarrow> datetime \<Rightarrow> string \<Rightarrow> string \<Rightarrow> string \<Rightarrow> string \<Rightarrow> MixerForm
     \<Rightarrow> state \<Rightarrow> state \<times> response" where
  "mixer_with activity_check cfg e now new_id sid ip ua f s =
     (case validate_on_submit cfg e f s of
        (s1, Inl err) \<Rightarrow> (s1, Abort 500)
      | (s1, Inr False) \<Rightarrow> (s1, FormPage)
      | (s1, Inr True) \<Rightarrow>
          (case activity_check ip ua s1 of
             Inl err \<Rightarrow> (s1, Abort 500)
           | Inr False \<Rightarrow> (s1, Abort 500)
           | Inr True \<Rightarrow>
               (case form_amount f of
                  Amount a \<Rightarrow>
                    (case create_mixing_transaction cfg e now new_id a
                            (form_output_address f) sid ip ua s1 of
                       (s2, Inl err) \<Rightarrow> (s2, Abort 500)
                     | (s2, Inr t) \<Rightarrow> (s2, ConfirmPage t))
                | _ \<Rightarrow> (s1, Abort 500))))"

text \<open>The handler as the module has it.\<close>

definition mixer ::
  "Config \<Rightarrow> env \<Rightarrow> datetime \<Rightarrow> string \<Rightarrow> string \<Rightarrow> string \<Rightarrow> string \<Rightarrow> MixerForm
     \<Rightarrow> state \<Rightarrow> state \<times> response" where
  "mixer = mixer_with check_suspicious_activity"

text \<open>
  The conditions on a request, in words of the form: it is submitted, its amount is a
  finite Decimal that is not zero and lies within the configured bounds, and its output
  address is not blank and is reported valid by the backend.
\<close>

definition request_valid :: "Config \<Rightarrow> env \<Rightarrow> MixerForm \<Rightarrow> state \<Rightarrow> bool" where
  "request_valid cfg e f s \<longleftrightarrow>
     is_submitted f
     \<and> (case form_amount f of
          Amount a \<Rightarrow>
            coefficient a \<noteq> 0 \<and> dec_val (MIN_AMOUNT cfg) \<le> dec_val a
            \<and> dec_val a \<le> dec_val (MAX_AMOUNT cfg)
        | _ \<Rightarrow> False)
     \<and> (\<exists>c \<in> set (form_output_address f). \<not> is_space c)
     \<and> validateaddress e (length (rpc_trace s)) (form_output_address f) = Inr (Some True)"

text \<open>The \<open>/api/check_payment\<close> route, for the session \<open>sid\<close>.\<close>

definition check_payment :: "env \<Rightarrow> datetime \<Rightarrow> string \<Rightarrow> string \<Rightarrow> state \<Rightarrow> state \<times> response" where
  "check_payment e now sid tid s =
     (case get_tx s tid of
        None \<Rightarrow> (s, Abort 404)
      | Some t \<Rightarrow>
          if session_id t \<noteq> sid then (s, Abort 403)
          else (case check_incoming_payment e now tid s of
                  (s1, payment_received) \<Rightarrow>
                    (s1, PaymentJson payment_received
                           (case get_tx s1 tid of None \<Rightarrow> status t | Some t1 \<Rightarrow> status t1))))"

section \<open>The system's entry points\<close>

text \<open>
  One step of the system under the configuration \<open>cfg\<close>: a call of the service's
  creation function with a fresh identifier, a request to one of the two routes, or a
  run of one of the tasks, each at any time and against any behaviour of the backend.
\<close>

inductive step :: "Config \<Rightarrow> state \<Rightarrow> state \<Rightarrow> bool" for cfg :: Config where
  step_create:
    "new_id \<notin> tx_id ` set (transactions s) \<Longrightarrow>
     step cfg s (fst (create_mixing_transaction cfg e now new_id amount out_addr sid ip ua s))"
| step_mixer:
    "new_id \<notin> tx_id ` set (transactions s) \<Longrightarrow>
     step cfg s (fst (mixer cfg e now new_id sid ip ua f s))"
| step_check_payment: "step cfg s (fst (check_payment e now sid tid s))"
| step_check_pending_payments: "step cfg s (fst (check_pending_payments e now s))"
| step_process_mixing: "step cfg s (fst (process_mixing cfg e now tid s))"
| step_process_mixing_rounds: "step cfg s (fst (process_mixing_rounds cfg e now s))"
| step_send_scheduled_outputs: "step cfg s (fst (send_scheduled_outputs e now s))"
| step_cleanup_old_transactions: "step cfg s (fst (cleanup_old_transactions now s))"

definition reachable :: "Config \<Rightarrow> state \<Rightarrow> bool" where
  "reachable cfg s = (step cfg)\<^sup>*\<^sup>* init_state s"

section \<open>Relations between the states of a row\<close>

text \<open>The identity and the three amounts of a row are those of another.\<close>

definition same_amounts :: "MixingTransaction \<Rightarrow> MixingTransaction \<Rightarrow> bool" where
  "same_amounts t t' \<longleftrightarrow>
     tx_id t' = tx_id t \<and> input_amount t' = input_amount t
     \<and> fee_amount t' = fee_amount t \<and> output_amount t' = output_amount t"

text \<open>
  The round counter of a row is within the configured count, and a completed row has
  made exactly that many rounds.
\<close>

definition rounds_ok :: "Config \<Rightarrow> MixingTransaction \<Rightarrow> bool" where
  "rounds_ok cfg t \<longleftrightarrow>
     mixing_rounds_completed t \<le> MIXING_ROUNDS cfg
     \<and> (status t = COMPLETED \<longrightarrow> mixing_rounds_completed t = MIXING_ROUNDS cfg)"

text \<open>
  What an entry point may do to a row: it keeps the amounts, never lowers the round
  counter, and keeps the counter's bound.
\<close>

definition row_step :: "Config \<Rightarrow> MixingTransaction \<Rightarrow> MixingTransaction \<Rightarrow> bool" where
  "row_step cfg t t' \<longleftrightarrow>
     same_amounts t t' \<and> mixing_rounds_completed t \<le> mixing_rounds_completed t'
     \<and> (rounds_ok cfg t \<longrightarrow> rounds_ok cfg t')"

text \<open>The backend call that pays a transaction out.\<close>

definition payout_call :: "env \<Rightarrow> MixingTransaction \<Rightarrow> rpc_call" where
  "payout_call e t = Sendtoaddress (output_address t) (py_float e (output_amount t))"

section \<open>Sample data\<close>

text \<open>
  The default settings of config.py, a backend that answers every call, and states of
  one transaction, for evaluating the operations on concrete inputs.
\<close>

definition default_config :: Config where
  "default_config =
     \<lparr>MIN_AMOUNT = \<lparr>coefficient = 1, exponent = -3\<rparr>,
      MAX_AMOUNT = \<lparr>coefficient = 1000, exponent = -1\<rparr>,
      FEE_PERCENT = \<lparr>coefficient = 3, exponent = -2\<rparr>,
      MIXING_ROUNDS = 3, DELAY_MINUTES_MIN = 10, DELAY_MINUTES_MAX = 60\<rparr>"

definition sample_env :: env where
  "sample_env =
     \<lparr>getnewaddress = (\<lambda>k l. Inr (''addr'' @ replicate k CHR ''x'')),
      getreceivedbyaddress = (\<lambda>k a. Inr 1),
      listreceivedbyaddress = (\<lambda>k a. Inr [[''funding1'']]),
      sendtoaddress = (\<lambda>k a x. Inr ''payout2''),
      validateaddress = (\<lambda>k a. Inr (Some True)),
      py_float = dec_val,
      hop_amount = (\<lambda>d. dec_val d * (99 / 100)),
      random_source = (\<lambda>k. 0)\<rparr>"

definition sample_tx :: "TransactionStatus \<Rightarrow> int \<Rightarrow> string option \<Rightarrow> MixingTransaction" where
  "sample_tx st n payout =
     \<lparr>tx_id = ''tx1'', session_id = ''sess1'',
      input_amount = \<lparr>coefficient = 100000000, exponent = -8\<rparr>,
      fee_amount = \<lparr>coefficient = 3000000, exponent = -8\<rparr>,
      output_amount = \<lparr>coefficient = 97000000, exponent = -8\<rparr>,
      input_address = ''in1'', output_address = ''out1'',
      mixing_address = (if n = 0 then None else Some ''pool1''),
      status = st, mixing_rounds_completed = n,
      input_txid = (if st = PENDING then None else Some ''funding1''),
      output_txid = payout, created_at = 0,
      mixing_started_at = (if st = PENDING then None else Some 5),
      completed_at = (if st = COMPLETED then Some 50 else None),
      scheduled_output_time = Some (minutes 10),
      ip_hash = Some ''ip'', user_agent_hash = Some ''ua'',
      error_message = None, retry_count = 0\<rparr>"

definition sample_state :: "MixingTransaction \<Rightarrow> state" where
  "sample_state t = init_state\<lparr>transactions := [t]\<rparr>"

text \<open>
  Four transactions: three created at time 0 and still pending, mixing, and completed
  but unpaid; one paid and created on day 31.
\<close>

definition old_unpaid_state :: state where
  "old_unpaid_state =
     init_state\<lparr>transactions :=
       [sample_tx PENDING 0 None,
        (sample_tx MIXING 1 None)\<lparr>tx_id := ''tx2''\<rparr>,
        (sample_tx COMPLETED 3 None)\<lparr>tx_id := ''tx3''\<rparr>,
        (sample_tx COMPLETED 3 (Some ''payout1''))\<lparr>tx_id := ''tx4'', created_at := days 31\<rparr>]\<rparr>"

text \<open>
  Five pool entries, \<open>pool1\<close> the least recently used, and a mixing transaction
  that holds its funds at \<open>pool1\<close> after one round.
\<close>

definition sample_pools :: "MixingPool list" where
  "sample_pools =
     map (\<lambda>(a, u). \<lparr>pool_address = a, pool_balance = \<lparr>coefficient = 0, exponent = 0\<rparr>,
                     last_used = Some u, is_active = True, pool_created_at = 0\<rparr>)
       [(''pool1'', 1), (''pool2'', 2), (''pool3'', 3), (''pool4'', 4), (''pool5'', 5)]"

definition pooled_state :: state where
  "pooled_state = (sample_state (sample_tx MIXING 1 None))\<lparr>pools := sample_pools\<rparr>"

text \<open>
  A backend that reports every address invalid, and one whose second call fails.
\<close>

definition rejecting_env :: env where
  "rejecting_env = sample_env\<lparr>validateaddress := (\<lambda>k a. Inr (Some False))\<rparr>"

definition failing_env :: env where
  "failing_env =
     sample_env\<lparr>getnewaddress :=
       (\<lambda>k l. if k = 1 then Inl ''timeout'' else Inr (''addr'' @ replicate k CHR ''x''))\<rparr>"

text \<open>
  Two completed transactions whose payout time has passed at minute 20: \<open>tx3\<close>
  unpaid, \<open>tx4\<close> already paid.
\<close>

definition paid_tx :: MixingTransaction where
  "paid_tx = (sample_tx COMPLETED 3 (Some ''payout1''))\<lparr>tx_id := ''tx4''\<rparr>"

definition payout_state :: state where
  "payout_state =
     init_state\<lparr>transactions :=
       [(sample_tx COMPLETED 3 None)\<lparr>tx_id := ''tx3''\<rparr>,
        (sample_tx COMPLETED 3 (Some ''payout1''))\<lparr>tx_id := ''tx4''\<rparr>]\<rparr>"

text \<open>A pending transaction after one detection of its payment, at time 5.\<close>

definition detected_once :: state where
  "detected_once = fst (check_incoming_payment sample_env 5 ''tx1'' (sample_state (sample_tx PENDING 0 None)))"


text \<open>
  A run of the system: a transaction for 1.0 is created, its payment is detected through
  the \<open>/api/check_payment\<close> route, and three runs of the round-advance task follow.
  \<open>first_tx\<close> is the row the creation stores.
\<close>

definition run1 :: state where
  "run1 = fst (create_mixing_transaction default_config sample_env 0 ''tx1''
                 \<lparr>coefficient = 10, exponent = -1\<rparr> ''out1'' ''sess1'' ''ip'' ''ua'' init_state)"

definition run2 :: state where
  "run2 = fst (check_payment sample_env 5 ''sess1'' ''tx1'' run1)"

definition run3 :: state where
  "run3 = fst (process_mixing_rounds default_config sample_env 10 run2)"

definition run4 :: state where
  "run4 = fst (process_mixing_rounds default_config sample_env 20 run3)"

definition run5 :: state where
  "run5 = fst (process_mixing_rounds default_config sample_env 30 run4)"


text \<open>
  A form that passes validation, one whose amount is below the minimum, and one whose
  amount is a NaN; and an activity check that finds nothing.
\<close>

definition good_form :: MixerForm where
  "good_form =
     \<lparr>is_submitted = True, form_amount = Amount \<lparr>coefficient = 10, exponent = -1\<rparr>,
      form_output_address = ''out1''\<rparr>"

definition small_form :: MixerForm where
  "small_form =
     \<lparr>is_submitted = True, form_amount = Amount \<lparr>coefficient = 1, exponent = -4\<rparr>,
      form_output_address = ''out1''\<rparr>"

definition nan_form :: MixerForm where
  "nan_form =
     \<lparr>is_submitted = True, form_amount = NotANumber, form_output_address = ''out1''\<rparr>"

definition no_suspicion :: "string \<Rightarrow> string \<Rightarrow> state \<Rightarrow> error + bool" where
  "no_suspicion ip ua s = Inr True"

section \<open>Basic facts about the state\<close>

lemma log_action_fields [simp]:
  "transactions (log_action now i a d s) = transactions s"
  "pools (log_action now i a d s) = pools s"
  "alerts (log_action now i a d s) = alerts s"
  "rpc_trace (log_action now i a d s) = rpc_trace s"
  "random_draws (log_action now i a d s) = random_draws s"
  "logs (log_action now i a d s) =
     logs s @ [\<lparr>transaction_id = Some i, timestamp = now, action = a, details = d\<rparr>]"
  by (simp_all add: log_action_def)

lemma called_fields [simp]:
  "transactions (called c s) = transactions s"
  "pools (called c s) = pools s"
  "alerts (called c s) = alerts s"
  "logs (called c s) = logs s"
  "random_draws (called c s) = random_draws s"
  "rpc_trace (called c s) = rpc_trace s @ [c]"
  by (simp_all add: called_def)

lemma put_tx_fields [simp]:
  "pools (put_tx t s) = pools s"
  "alerts (put_tx t s) = alerts s"
  "logs (put_tx t s) = logs s"
  "random_draws (put_tx t s) = random_draws s"
  "rpc_trace (put_tx t s) = rpc_trace s"
  "transactions (put_tx t s) = map (\<lambda>u. if tx_id u = tx_id t then t else u) (transactions s)"
  by (simp_all add: put_tx_def)

lemma get_tx_cong: "transactions s' = transactions s \<Longrightarrow> get_tx s' i = get_tx s i"
  by (simp add: get_tx_def)

lemma get_tx_frame [simp]:
  "get_tx (log_action now j a d s) i = get_tx s i"
  "get_tx (called c s) i = get_tx s i"
  "get_tx (s\<lparr>random_draws := n\<rparr>) i = get_tx s i"
  "get_tx (s\<lparr>pools := ps\<rparr>) i = get_tx s i"
  by (simp_all add: get_tx_def)

lemma get_tx_id: "get_tx s i = Some t \<Longrightarrow> tx_id t = i"
  by (auto simp: get_tx_def find_Some_iff)

lemma get_tx_mem: "get_tx s i = Some t \<Longrightarrow> t \<in> set (transactions s)"
  by (auto simp: get_tx_def find_Some_iff)

lemma find_upd_other:
  "tx_id t \<noteq> j \<Longrightarrow>
   find (\<lambda>u. tx_id u = j) (map (\<lambda>u. if tx_id u = tx_id t then t else u) xs)
     = find (\<lambda>u. tx_id u = j) xs"
  by (induction xs) auto

lemma find_upd_same:
  "find (\<lambda>u. tx_id u = tx_id t) xs \<noteq> None \<Longrightarrow>
   find (\<lambda>u. tx_id u = tx_id t) (map (\<lambda>u. if tx_id u = tx_id t then t else u) xs) = Some t"
  by (induction xs) auto

lemma get_tx_put_tx_other [simp]:
  "tx_id t \<noteq> j \<Longrightarrow> get_tx (put_tx t s) j = get_tx s j"
  by (simp add: get_tx_def find_upd_other)

lemma get_tx_put_tx_same:
  "get_tx s (tx_id t) = Some u \<Longrightarrow> get_tx (put_tx t s) (tx_id t) = Some t"
  by (simp add: get_tx_def find_upd_same)

lemma find_distinct_mem:
  "distinct (map tx_id xs) \<Longrightarrow> t \<in> set xs \<Longrightarrow> find (\<lambda>u. tx_id u = tx_id t) xs = Some t"
  by (induction xs) (auto simp: rev_image_eqI)

lemma get_tx_distinct:
  "distinct (map tx_id (transactions s)) \<Longrightarrow> t \<in> set (transactions s) \<Longrightarrow>
   get_tx s (tx_id t) = Some t"
  by (simp add: get_tx_def find_distinct_mem)

lemma generate_pools_frame [simp]:
  "transactions (fst (generate_pools e now n s)) = transactions s
   \<and> logs (fst (generate_pools e now n s)) = logs s
   \<and> alerts (fst (generate_pools e now n s)) = alerts s
   \<and> random_draws (fst (generate_pools e now n s)) = random_draws s"
  by (induction n arbitrary: s) (simp_all add: Let_def split: sum.splits)

lemma generate_pools_frame':
  assumes "generate_pools e now n s = (s1, r)"
  shows "transactions s1 = transactions s" "logs s1 = logs s" "alerts s1 = alerts s"
    "random_draws s1 = random_draws s"
  using generate_pools_frame [of e now n s] assms by simp_all

lemma get_mixing_pool_addresses_frame [simp]:
  "transactions (fst (get_mixing_pool_addresses e now n s)) = transactions s
   \<and> logs (fst (get_mixing_pool_addresses e now n s)) = logs s
   \<and> alerts (fst (get_mixing_pool_addresses e now n s)) = alerts s
   \<and> random_draws (fst (get_mixing_pool_addresses e now n s)) = random_draws s"
  by (auto simp: get_mixing_pool_addresses_def Let_def generate_pools_frame'
        split: prod.splits sum.splits)

lemma get_mixing_pool_addresses_frame':
  assumes "get_mixing_pool_addresses e now n s = (s1, r)"
  shows "transactions s1 = transactions s" "logs s1 = logs s" "alerts s1 = alerts s"
    "random_draws s1 = random_draws s" "get_tx s1 i = get_tx s i"
  using get_mixing_pool_addresses_frame [of e now n s] assms by (simp_all add: get_tx_def)


lemma put_tx_put_tx [simp]:
  "tx_id t1 = tx_id t2 \<Longrightarrow> put_tx t2 (put_tx t1 s) = put_tx t2 s"
  by (simp add: put_tx_def comp_def)

lemma put_tx_log_action: "put_tx t (log_action now i a d s) = log_action now i a d (put_tx t s)"
  by (simp add: put_tx_def log_action_def)

lemma check_incoming_payment_None:
  "get_tx s i = None \<Longrightarrow> check_incoming_payment e now i s = (s, False)"
  by (simp add: check_incoming_payment_def)

lemma check_incoming_payment_effect:
  assumes "get_tx s i = Some t"
  shows "transactions (fst (check_incoming_payment e now i s)) = transactions s
     \<or> (\<exists>t'. transactions (fst (check_incoming_payment e now i s)) = transactions (put_tx t' s)
           \<and> same_amounts t t' \<and> mixing_rounds_completed t' = mixing_rounds_completed t
           \<and> status t' = MIXING)"
  using assms
  by (auto simp: check_incoming_payment_def Let_def same_amounts_def
        split: sum.splits list.splits)

lemma send_output_transaction_effect:
  assumes "get_tx s i = Some t"
  shows "transactions (fst (send_output_transaction e now i s)) = transactions s
     \<or> (\<exists>t'. transactions (fst (send_output_transaction e now i s)) = transactions (put_tx t' s)
           \<and> same_amounts t t' \<and> mixing_rounds_completed t' = mixing_rounds_completed t
           \<and> status t' = status t)"
  using assms
  by (auto simp: send_output_transaction_def Let_def same_amounts_def
        split: sum.splits list.splits)

lemma transactions_put_tx_cong:
  "transactions s1 = transactions s \<Longrightarrow> transactions (put_tx t s1) = transactions (put_tx t s)"
  by simp

lemma perform_mixing_round_effect:
  assumes "get_tx s i = Some t"
  shows "transactions (fst (perform_mixing_round cfg e now i s)) = transactions s
     \<or> (\<exists>t'. transactions (fst (perform_mixing_round cfg e now i s)) = transactions (put_tx t' s)
           \<and> same_amounts t t' \<and> status t = MIXING
           \<and> (mixing_rounds_completed t' = mixing_rounds_completed t \<and> status t' = FAILED
              \<or> mixing_rounds_completed t' = mixing_rounds_completed t + 1
                 \<and> (status t' = MIXING \<and> mixing_rounds_completed t' < MIXING_ROUNDS cfg
                    \<or> status t' = COMPLETED \<and> MIXING_ROUNDS cfg \<le> mixing_rounds_completed t'
                    \<or> status t' = FAILED \<and> MIXING_ROUNDS cfg \<le> mixing_rounds_completed t')))"
proof (cases "status t = MIXING")
  case False
  with assms show ?thesis by (simp add: perform_mixing_round_def)
next
  case True
  obtain s1 r where X: "get_mixing_pool_addresses e now 5 s = (s1, r)"
    by (cases "get_mixing_pool_addresses e now 5 s")
  have tr: "transactions s1 = transactions s"
    using get_mixing_pool_addresses_frame'(1) [OF X] .
  let ?P = "\<lambda>t'. same_amounts t t'
           \<and> (mixing_rounds_completed t' = mixing_rounds_completed t \<and> status t' = FAILED
              \<or> mixing_rounds_completed t' = mixing_rounds_completed t + 1
                 \<and> (status t' = MIXING \<and> mixing_rounds_completed t' < MIXING_ROUNDS cfg
                    \<or> status t' = COMPLETED \<and> MIXING_ROUNDS cfg \<le> mixing_rounds_completed t'
                    \<or> status t' = FAILED \<and> MIXING_ROUNDS cfg \<le> mixing_rounds_completed t'))"
  have "\<exists>t'. transactions (fst (perform_mixing_round cfg e now i s)) = transactions (put_tx t' s)
          \<and> ?P t'"
  proof (cases r)
    case (Inl err)
    let ?t = "t\<lparr>status := FAILED, error_message := Some err\<rparr>"
    have "transactions (fst (perform_mixing_round cfg e now i s)) = transactions (put_tx ?t s)"
      using assms True X Inl tr by (simp add: perform_mixing_round_def fail_round_def)
    moreover have "?P ?t" by (simp add: same_amounts_def)
    ultimately show ?thesis by blast
  next
    case (Inr addrs)
    show ?thesis
    proof (cases "random_choice (random_source e (random_draws s1)) addrs")
      case (Inl err)
      let ?t = "t\<lparr>status := FAILED, error_message := Some err\<rparr>"
      have "transactions (fst (perform_mixing_round cfg e now i s)) = transactions (put_tx ?t s)"
        using assms True X Inr Inl tr by (simp add: perform_mixing_round_def fail_round_def)
      moreover have "?P ?t" by (simp add: same_amounts_def)
      ultimately show ?thesis by blast
    next
      case c: (Inr chosen)
      let ?t1 = "t\<lparr>mixing_address := Some chosen,
                    mixing_rounds_completed := mixing_rounds_completed t + 1\<rparr>"
      show ?thesis
      proof (cases "MIXING_ROUNDS cfg \<le> mixing_rounds_completed t + 1")
        case False
        have "transactions (fst (perform_mixing_round cfg e now i s)) = transactions (put_tx ?t1 s)"
          using assms True X Inr c tr False by (simp add: perform_mixing_round_def Let_def)
        moreover have "?P ?t1" using False True by (simp add: same_amounts_def)
        ultimately show ?thesis by blast
      next
        case fin: True
        let ?t2 = "?t1\<lparr>status := COMPLETED, completed_at := Some now\<rparr>"
        show ?thesis
        proof (cases "scheduled_output_time t")
          case None
          let ?t3 = "?t2\<lparr>status := FAILED, error_message := Some AttributeError\<rparr>"
          have "transactions (fst (perform_mixing_round cfg e now i s)) = transactions (put_tx ?t3 s)"
            using assms True X Inr c tr fin None
            by (simp add: perform_mixing_round_def Let_def fail_round_def
                  schedule_output_transaction_def)
          moreover have "?P ?t3" using fin by (simp add: same_amounts_def)
          ultimately show ?thesis by blast
        next
          case (Some st)
          have "transactions (fst (perform_mixing_round cfg e now i s)) = transactions (put_tx ?t2 s)"
            using assms True X Inr c tr fin Some
            by (simp add: perform_mixing_round_def Let_def fail_round_def
                  schedule_output_transaction_def)
          moreover have "?P ?t2" using fin by (simp add: same_amounts_def)
          ultimately show ?thesis by blast
        qed
      qed
    qed
  qed
  with True show ?thesis by blast
qed


lemma row_step_refl [simp]: "row_step cfg t t"
  by (simp add: row_step_def same_amounts_def)

lemma row_step_trans: "row_step cfg a b \<Longrightarrow> row_step cfg b c \<Longrightarrow> row_step cfg a c"
  by (auto simp: row_step_def same_amounts_def)

lemma list_all2_row_step_refl [simp]: "list_all2 (row_step cfg) xs xs"
  by (simp add: list_all2_refl)

lemma list_all2_row_step_trans:
  "list_all2 (row_step cfg) xs ys \<Longrightarrow> list_all2 (row_step cfg) ys zs \<Longrightarrow>
   list_all2 (row_step cfg) xs zs"
  by (rule list_all2_trans [of "row_step cfg" "row_step cfg"]) (auto intro: row_step_trans)

lemma list_all2_row_step_ids:
  "list_all2 (row_step cfg) xs ys \<Longrightarrow> map tx_id ys = map tx_id xs"
  by (induction rule: list_all2_induct) (auto simp: row_step_def same_amounts_def)

lemma list_all2_upd:
  assumes "distinct (map tx_id xs)" "find (\<lambda>u. tx_id u = i) xs = Some t" "tx_id t' = i"
    "row_step cfg t t'"
  shows "list_all2 (row_step cfg) xs (map (\<lambda>u. if tx_id u = tx_id t' then t' else u) xs)"
  using assms
proof (induction xs)
  case Nil
  then show ?case by simp
next
  case (Cons x xs)
  show ?case
  proof (cases "tx_id x = i")
    case True
    with Cons.prems have "x = t" by simp
    moreover have "\<forall>u\<in>set xs. tx_id u \<noteq> tx_id t'"
      using Cons.prems True by (force simp: image_iff)
    then have "map (\<lambda>u. if tx_id u = tx_id t' then t' else u) xs = xs"
      by (intro map_idI) simp
    ultimately show ?thesis using Cons.prems True by simp
  next
    case False
    with Cons show ?thesis by simp
  qed
qed

lemma list_all2_put_tx:
  assumes "distinct (map tx_id (transactions s))" "get_tx s i = Some t" "tx_id t' = i"
    "row_step cfg t t'"
  shows "list_all2 (row_step cfg) (transactions s) (transactions (put_tx t' s))"
  using assms list_all2_upd [of "transactions s" i t t' cfg] by (simp add: get_tx_def)

lemma list_all2_find:
  assumes "list_all2 (row_step cfg) xs ys" "find (\<lambda>u. tx_id u = i) xs = Some t"
  shows "\<exists>t'. find (\<lambda>u. tx_id u = i) ys = Some t' \<and> row_step cfg t t'"
  using assms
  by (induction rule: list_all2_induct) (auto simp: row_step_def same_amounts_def)

lemma check_incoming_payment_row_step:
  assumes "distinct (map tx_id (transactions s))"
  shows "list_all2 (row_step cfg) (transactions s)
           (transactions (fst (check_incoming_payment e now i s)))"
proof (cases "get_tx s i")
  case None
  then show ?thesis by (simp add: check_incoming_payment_None)
next
  case (Some t)
  from check_incoming_payment_effect [OF Some, of e now] show ?thesis
  proof
    assume "transactions (fst (check_incoming_payment e now i s)) = transactions s"
    then show ?thesis by simp
  next
    assume "\<exists>t'. transactions (fst (check_incoming_payment e now i s)) = transactions (put_tx t' s)
           \<and> same_amounts t t' \<and> mixing_rounds_completed t' = mixing_rounds_completed t
           \<and> status t' = MIXING"
    then obtain t' where
      eq: "transactions (fst (check_incoming_payment e now i s)) = transactions (put_tx t' s)"
      and k: "same_amounts t t'" "mixing_rounds_completed t' = mixing_rounds_completed t"
        "status t' = MIXING"
      by blast
    have "row_step cfg t t'" using k by (simp add: row_step_def rounds_ok_def)
    moreover have "tx_id t' = i" using k(1) get_tx_id [OF Some] by (simp add: same_amounts_def)
    ultimately show ?thesis unfolding eq using assms Some by (intro list_all2_put_tx)
  qed
qed

lemma send_output_transaction_row_step:
  assumes "distinct (map tx_id (transactions s))"
  shows "list_all2 (row_step cfg) (transactions s)
           (transactions (fst (send_output_transaction e now i s)))"
proof (cases "get_tx s i")
  case None
  then show ?thesis by (simp add: send_output_transaction_def)
next
  case (Some t)
  from send_output_transaction_effect [OF Some, of e now] show ?thesis
  proof
    assume "transactions (fst (send_output_transaction e now i s)) = transactions s"
    then show ?thesis by simp
  next
    assume "\<exists>t'. transactions (fst (send_output_transaction e now i s)) = transactions (put_tx t' s)
           \<and> same_amounts t t' \<and> mixing_rounds_completed t' = mixing_rounds_completed t
           \<and> status t' = status t"
    then obtain t' where
      eq: "transactions (fst (send_output_transaction e now i s)) = transactions (put_tx t' s)"
      and k: "same_amounts t t'" "mixing_rounds_completed t' = mixing_rounds_completed t"
        "status t' = status t"
      by blast
    have "row_step cfg t t'" using k by (simp add: row_step_def rounds_ok_def)
    moreover have "tx_id t' = i" using k(1) get_tx_id [OF Some] by (simp add: same_amounts_def)
    ultimately show ?thesis unfolding eq using assms Some by (intro list_all2_put_tx)
  qed
qed

lemma perform_mixing_round_row_step:
  assumes "distinct (map tx_id (transactions s))" "get_tx s i = Some t"
    "mixing_rounds_completed t < MIXING_ROUNDS cfg"
  shows "list_all2 (row_step cfg) (transactions s)
           (transactions (fst (perform_mixing_round cfg e now i s)))"
proof -
  from perform_mixing_round_effect [OF assms(2), of cfg e now] show ?thesis
  proof
    assume "transactions (fst (perform_mixing_round cfg e now i s)) = transactions s"
    then show ?thesis by simp
  next
    assume "\<exists>t'. transactions (fst (perform_mixing_round cfg e now i s)) = transactions (put_tx t' s)
           \<and> same_amounts t t' \<and> status t = MIXING
           \<and> (mixing_rounds_completed t' = mixing_rounds_completed t \<and> status t' = FAILED
              \<or> mixing_rounds_completed t' = mixing_rounds_completed t + 1
                 \<and> (status t' = MIXING \<and> mixing_rounds_completed t' < MIXING_ROUNDS cfg
                    \<or> status t' = COMPLETED \<and> MIXING_ROUNDS cfg \<le> mixing_rounds_completed t'
                    \<or> status t' = FAILED \<and> MIXING_ROUNDS cfg \<le> mixing_rounds_completed t'))"
    then obtain t' where
      eq: "transactions (fst (perform_mixing_round cfg e now i s)) = transactions (put_tx t' s)"
      and k: "same_amounts t t'"
        "mixing_rounds_completed t' = mixing_rounds_completed t \<and> status t' = FAILED
              \<or> mixing_rounds_completed t' = mixing_rounds_completed t + 1
                 \<and> (status t' = MIXING \<and> mixing_rounds_completed t' < MIXING_ROUNDS cfg
                    \<or> status t' = COMPLETED \<and> MIXING_ROUNDS cfg \<le> mixing_rounds_completed t'
                    \<or> status t' = FAILED \<and> MIXING_ROUNDS cfg \<le> mixing_rounds_completed t')"
      by blast
    have "row_step cfg t t'" using k assms(3) by (auto simp: row_step_def rounds_ok_def)
    moreover have "tx_id t' = i" using k(1) get_tx_id [OF assms(2)] by (simp add: same_amounts_def)
    ultimately show ?thesis unfolding eq using assms by (intro list_all2_put_tx)
  qed
qed


lemma row_step_distinct:
  "list_all2 (row_step cfg) xs ys \<Longrightarrow> distinct (map tx_id xs) \<Longrightarrow> distinct (map tx_id ys)"
  by (simp add: list_all2_row_step_ids)

lemma check_pending_loop_row_step:
  "distinct (map tx_id (transactions s)) \<Longrightarrow>
   list_all2 (row_step cfg) (transactions s)
     (transactions (fst (check_pending_loop e now ids s)))"
proof (induction ids arbitrary: s)
  case Nil
  then show ?case by simp
next
  case (Cons i ids)
  let ?s1 = "fst (check_incoming_payment e now i s)"
  have a: "list_all2 (row_step cfg) (transactions s) (transactions ?s1)"
    using Cons.prems by (rule check_incoming_payment_row_step)
  then have "distinct (map tx_id (transactions ?s1))"
    using Cons.prems by (rule row_step_distinct)
  then have "list_all2 (row_step cfg) (transactions ?s1)
     (transactions (fst (check_pending_loop e now ids ?s1)))"
    by (rule Cons.IH)
  with a have "list_all2 (row_step cfg) (transactions s)
     (transactions (fst (check_pending_loop e now ids ?s1)))"
    by (rule list_all2_row_step_trans)
  then show ?case by (simp add: split_beta)
qed

lemma outputs_loop_row_step:
  "distinct (map tx_id (transactions s)) \<Longrightarrow>
   list_all2 (row_step cfg) (transactions s) (transactions (outputs_loop e now ids s))"
proof (induction ids arbitrary: s)
  case Nil
  then show ?case by simp
next
  case (Cons i ids)
  let ?s1 = "fst (send_output_transaction e now i s)"
  have a: "list_all2 (row_step cfg) (transactions s) (transactions ?s1)"
    using Cons.prems by (rule send_output_transaction_row_step)
  then have "distinct (map tx_id (transactions ?s1))"
    using Cons.prems by (rule row_step_distinct)
  then have "list_all2 (row_step cfg) (transactions ?s1)
     (transactions (outputs_loop e now ids ?s1))"
    by (rule Cons.IH)
  with a show ?case by (simp add: list_all2_row_step_trans)
qed

lemma mixing_rounds_loop_row_step:
  "distinct (map tx_id (transactions s)) \<Longrightarrow>
   list_all2 (row_step cfg) (transactions s) (transactions (mixing_rounds_loop cfg e now ids s))"
proof (induction ids arbitrary: s)
  case Nil
  then show ?case by simp
next
  case (Cons i ids)
  show ?case
  proof (cases "get_tx s i")
    case None
    with Cons show ?thesis by simp
  next
    case (Some t)
    show ?thesis
    proof (cases "mixing_rounds_completed t < MIXING_ROUNDS cfg")
      case False
      with Some Cons show ?thesis by simp
    next
      case True
      let ?s1 = "fst (perform_mixing_round cfg e now i s)"
      have a: "list_all2 (row_step cfg) (transactions s) (transactions ?s1)"
        using Cons.prems Some True by (rule perform_mixing_round_row_step)
      then have "distinct (map tx_id (transactions ?s1))"
        using Cons.prems by (rule row_step_distinct)
      then have "list_all2 (row_step cfg) (transactions ?s1)
         (transactions (mixing_rounds_loop cfg e now ids ?s1))"
        by (rule Cons.IH)
      with a show ?thesis using Some True by (simp add: list_all2_row_step_trans)
    qed
  qed
qed

lemma process_mixing_row_step:
  "distinct (map tx_id (transactions s)) \<Longrightarrow>
   list_all2 (row_step cfg) (transactions s) (transactions (fst (process_mixing cfg e now i s)))"
  by (auto simp: process_mixing_def split_beta perform_mixing_round_row_step
        split: option.splits)

lemma check_payment_row_step:
  "distinct (map tx_id (transactions s)) \<Longrightarrow>
   list_all2 (row_step cfg) (transactions s) (transactions (fst (check_payment e now sid i s)))"
  by (auto simp: check_payment_def split_beta check_incoming_payment_row_step
        split: option.splits)

lemma validate_on_submit_frame:
  "transactions (fst (validate_on_submit cfg e f s)) = transactions s
   \<and> logs (fst (validate_on_submit cfg e f s)) = logs s
   \<and> pools (fst (validate_on_submit cfg e f s)) = pools s
   \<and> alerts (fst (validate_on_submit cfg e f s)) = alerts s"
  by (simp add: validate_on_submit_def validate_output_address_def
        validate_bitcoin_address_def Let_def split_beta split: sum.splits)

lemma validate_on_submit_frame':
  assumes "validate_on_submit cfg e f s = (s1, r)"
  shows "transactions s1 = transactions s" "logs s1 = logs s"
  using validate_on_submit_frame [of cfg e f s] assms by simp_all

lemma mixer_transactions:
  "transactions (fst (mixer cfg e now new_id sid ip ua f s)) = transactions s"
proof -
  obtain s1 r where v: "validate_on_submit cfg e f s = (s1, r)"
    by (cases "validate_on_submit cfg e f s")
  have "transactions s1 = transactions s"
    using v by (rule validate_on_submit_frame'(1))
  with v show ?thesis
    by (simp add: mixer_def mixer_with_def check_suspicious_activity_def
          split: sum.splits bool.splits)
qed

lemma create_mixing_transaction_transactions:
  "transactions (fst (create_mixing_transaction cfg e now new_id a out sid ip ua s)) = transactions s
   \<or> (\<exists>t. transactions (fst (create_mixing_transaction cfg e now new_id a out sid ip ua s))
             = transactions s @ [t]
          \<and> tx_id t = new_id \<and> status t = PENDING \<and> mixing_rounds_completed t = 0)"
  by (simp add: create_mixing_transaction_def Let_def split: sum.splits)

text \<open>The definitions that evaluating an operation on the sample data unfolds.\<close>

lemmas sample_defs = sample_state_def sample_tx_def sample_env_def init_state_def
  default_config_def sample_pools_def rejecting_env_def

lemmas eval_defs = get_tx_def put_tx_def called_def log_action_def dec_val_def Let_def

section \<open>Payout\<close>

text \<open>
  Claim C1 as stated fails: \<open>send_output_transaction\<close> looks at the status only. On
  a completed transaction that already carries the payout reference \<open>payout1\<close> it
  calls the backend's \<open>sendtoaddress\<close> again, overwrites the reference and logs
  \<open>OUTPUT_SENT\<close>.
\<close>

theorem send_output_transaction_pays_again:
  "status (sample_tx COMPLETED 3 (Some ''payout1'')) = COMPLETED
   \<and> output_txid (sample_tx COMPLETED 3 (Some ''payout1'')) = Some ''payout1''
   \<and> snd (send_output_transaction sample_env 100 ''tx1''
             (sample_state (sample_tx COMPLETED 3 (Some ''payout1'')))) = True
   \<and> rpc_trace (fst (send_output_transaction sample_env 100 ''tx1''
             (sample_state (sample_tx COMPLETED 3 (Some ''payout1''))))) = [Sendtoaddress ''out1'' (97 / 100)]
   \<and> map output_txid (transactions (fst (send_output_transaction sample_env 100 ''tx1''
             (sample_state (sample_tx COMPLETED 3 (Some ''payout1'')))))) = [Some ''payout2'']
   \<and> map action (logs (fst (send_output_transaction sample_env 100 ''tx1''
             (sample_state (sample_tx COMPLETED 3 (Some ''payout1'')))))) = [OUTPUT_SENT]"
  by code_simp

text \<open>What \<open>send_output_transaction\<close> does to the other rows, the log and the trace.\<close>

lemma send_output_transaction_other:
  "j \<noteq> i \<Longrightarrow> get_tx (fst (send_output_transaction e now i s)) j = get_tx s j"
  by (auto simp: send_output_transaction_def Let_def dest: get_tx_id
        split: option.splits sum.splits)

lemma send_output_transaction_logs_other:
  "j \<noteq> i \<Longrightarrow>
   filter (\<lambda>l. transaction_id l = Some j) (logs (fst (send_output_transaction e now i s)))
     = filter (\<lambda>l. transaction_id l = Some j) (logs s)"
  by (auto simp: send_output_transaction_def Let_def dest: get_tx_id
        split: option.splits sum.splits)

lemma send_output_transaction_trace:
  "get_tx s i = Some t \<Longrightarrow> status t = COMPLETED \<Longrightarrow>
   rpc_trace (fst (send_output_transaction e now i s))
     = rpc_trace s @ [Sendtoaddress (output_address t) (py_float e (output_amount t))]"
  by (simp add: send_output_transaction_def Let_def split: sum.splits)

lemma outputs_loop_frame:
  assumes "distinct (map tx_id ts)"
    and "\<forall>u\<in>set ts. get_tx s (tx_id u) = Some u \<and> status u = COMPLETED"
    and "i \<notin> tx_id ` set ts"
  shows "get_tx (outputs_loop e now (map tx_id ts) s) i = get_tx s i
     \<and> filter (\<lambda>l. transaction_id l = Some i) (logs (outputs_loop e now (map tx_id ts) s))
         = filter (\<lambda>l. transaction_id l = Some i) (logs s)
     \<and> rpc_trace (outputs_loop e now (map tx_id ts) s)
         = rpc_trace s @ map (payout_call e) ts"
  using assms
proof (induction ts arbitrary: s)
  case Nil
  then show ?case by simp
next
  case (Cons u ts)
  let ?s1 = "fst (send_output_transaction e now (tx_id u) s)"
  have u: "get_tx s (tx_id u) = Some u" "status u = COMPLETED"
    using Cons.prems(2) by simp_all
  have rest: "\<forall>v\<in>set ts. get_tx ?s1 (tx_id v) = Some v \<and> status v = COMPLETED"
  proof
    fix v assume v: "v \<in> set ts"
    then have "tx_id v \<noteq> tx_id u" using Cons.prems(1) by (force simp: image_iff)
    then have "get_tx ?s1 (tx_id v) = get_tx s (tx_id v)"
      by (rule send_output_transaction_other)
    with v Cons.prems(2) show "get_tx ?s1 (tx_id v) = Some v \<and> status v = COMPLETED" by simp
  qed
  have ih: "get_tx (outputs_loop e now (map tx_id ts) ?s1) i = get_tx ?s1 i
     \<and> filter (\<lambda>l. transaction_id l = Some i) (logs (outputs_loop e now (map tx_id ts) ?s1))
         = filter (\<lambda>l. transaction_id l = Some i) (logs ?s1)
     \<and> rpc_trace (outputs_loop e now (map tx_id ts) ?s1)
         = rpc_trace ?s1 @ map (payout_call e) ts"
    using Cons.prems(1,3) rest by (intro Cons.IH) auto
  have ne: "i \<noteq> tx_id u" using Cons.prems(3) by auto
  show ?case
    using ih send_output_transaction_other [OF ne, of e now s]
      send_output_transaction_logs_other [OF ne, of e now s]
      send_output_transaction_trace [OF u, of e now]
    by (simp add: payout_call_def)
qed

text \<open>
  Claim C1, amended. The guard is the query of the payout-due task: on a table whose
  identifiers are distinct, a transaction that carries a payout reference is not among
  the rows \<open>send_scheduled_outputs\<close> selects; the run leaves the row as it was and
  appends no log entry for it, and the backend calls of the run are exactly one
  \<open>sendtoaddress\<close> for each selected row (completed, due, without a reference).
\<close>

theorem send_scheduled_outputs_skips_paid:
  assumes "distinct (map tx_id (transactions s))"
    and "t \<in> set (transactions s)"
    and "output_txid t \<noteq> None"
  shows "t \<notin> set (ready_txs now s)
     \<and> get_tx (fst (send_scheduled_outputs e now s)) (tx_id t) = Some t
     \<and> filter (\<lambda>l. transaction_id l = Some (tx_id t)) (logs (fst (send_scheduled_outputs e now s)))
         = filter (\<lambda>l. transaction_id l = Some (tx_id t)) (logs s)
     \<and> rpc_trace (fst (send_scheduled_outputs e now s))
         = rpc_trace s @ map (payout_call e) (ready_txs now s)"
proof -
  have d: "distinct (map tx_id (ready_txs now s))"
    using assms(1) by (simp add: ready_txs_def distinct_map_filter)
  have r: "\<forall>u\<in>set (ready_txs now s). get_tx s (tx_id u) = Some u \<and> status u = COMPLETED"
    using assms(1) by (auto simp: ready_txs_def get_tx_distinct)
  have n: "t \<notin> set (ready_txs now s)"
    using assms(3) by (simp add: ready_txs_def)
  have i: "tx_id t \<notin> tx_id ` set (ready_txs now s)"
  proof
    assume "tx_id t \<in> tx_id ` set (ready_txs now s)"
    then obtain u where u: "u \<in> set (ready_txs now s)" "tx_id u = tx_id t" by auto
    then have "u \<in> set (transactions s)" by (simp add: ready_txs_def)
    with assms(1,2) u(2) have "u = t"
      by (metis get_tx_distinct option.inject)
    with u(1) n show False by simp
  qed
  from outputs_loop_frame [OF d r i, of e now] get_tx_distinct [OF assms(1,2)] n
  show ?thesis by (simp add: send_scheduled_outputs_def)
qed

text \<open>
  At minute 20 the task pays \<open>tx3\<close> with one call and leaves the paid \<open>tx4\<close>
  alone.
\<close>

theorem send_scheduled_outputs_skips_paid_witness:
  "distinct (map tx_id (transactions payout_state))
   \<and> paid_tx \<in> set (transactions payout_state)
   \<and> output_txid paid_tx \<noteq> None
   \<and> map tx_id (ready_txs (minutes 20) payout_state) = [''tx3'']
   \<and> get_tx (fst (send_scheduled_outputs sample_env (minutes 20) payout_state)) (tx_id paid_tx)
       = Some paid_tx
   \<and> rpc_trace (fst (send_scheduled_outputs sample_env (minutes 20) payout_state))
       = [Sendtoaddress ''out1'' (97 / 100)]
   \<and> map (\<lambda>t. (tx_id t, output_txid t))
         (transactions (fst (send_scheduled_outputs sample_env (minutes 20) payout_state)))
       = [(''tx3'', Some ''payout2''), (''tx4'', Some ''payout1'')]"
proof -
  have d: "distinct (map tx_id (transactions payout_state))" by code_simp
  have m: "paid_tx \<in> set (transactions payout_state)" by code_simp
  have p: "output_txid paid_tx \<noteq> None" by code_simp
  have r: "map tx_id (ready_txs (minutes 20) payout_state) = [''tx3'']" by code_simp
  have t: "rpc_trace (fst (send_scheduled_outputs sample_env (minutes 20) payout_state))
       = [Sendtoaddress ''out1'' (97 / 100)]" by code_simp
  have o: "map (\<lambda>t. (tx_id t, output_txid t))
         (transactions (fst (send_scheduled_outputs sample_env (minutes 20) payout_state)))
       = [(''tx3'', Some ''payout2''), (''tx4'', Some ''payout1'')]" by code_simp
  from send_scheduled_outputs_skips_paid [OF d m p, of "minutes 20" sample_env] d m p r t o
  show ?thesis by simp
qed

section \<open>Payment detection\<close>

text \<open>
  \<open>check_incoming_payment\<close> has no guard on the status: once the backend reports the
  requested amount, the row is set to \<open>MIXING\<close> and a \<open>PAYMENT_RECEIVED\<close> entry is
  logged, whatever the status was.
\<close>

lemma check_incoming_payment_funded:
  assumes "get_tx s i = Some t"
    and "getreceivedbyaddress e (length (rpc_trace s)) (input_address t) = Inr received"
    and "py_float e (input_amount t) \<le> received"
    and "listreceivedbyaddress e (Suc (length (rpc_trace s))) (input_address t) = Inr txlist"
  shows "snd (check_incoming_payment e now i s) = True
     \<and> map_option status (get_tx (fst (check_incoming_payment e now i s)) i) = Some MIXING"
proof -
  have i: "tx_id t = i" using assms(1) by (rule get_tx_id)
  have "\<And>u s'. tx_id u = i \<Longrightarrow> get_tx s' i = Some t \<Longrightarrow> get_tx (put_tx u s') i = Some u"
    using get_tx_put_tx_same by metis
  then show ?thesis
    using assms i
    by (simp add: check_incoming_payment_def Let_def split: list.splits)
qed

text \<open>
  Claim C2, evaluated on the code: the claim says no operation moves a transaction out
  of \<open>FAILED\<close> or \<open>CANCELLED\<close> and that \<open>check_incoming_payment\<close> changes the
  status of pending transactions only. On a funded transaction in status \<open>FAILED\<close>,
  \<open>CANCELLED\<close> or \<open>COMPLETED\<close> the code sets the status back to \<open>MIXING\<close>; the
  \<open>/api/check_payment\<close> route reaches this for any transaction of the caller's
  session.
\<close>

theorem check_incoming_payment_reopens_terminal:
  "map status (transactions (sample_state (sample_tx FAILED 1 None))) = [FAILED]
   \<and> check_payment sample_env 100 ''sess1'' ''tx1'' (sample_state (sample_tx FAILED 1 None))
       = (fst (check_incoming_payment sample_env 100 ''tx1'' (sample_state (sample_tx FAILED 1 None))),
          PaymentJson True MIXING)
   \<and> map status (transactions (fst (check_incoming_payment sample_env 100 ''tx1''
         (sample_state (sample_tx FAILED 1 None))))) = [MIXING]
   \<and> map status (transactions (fst (check_incoming_payment sample_env 100 ''tx1''
         (sample_state (sample_tx CANCELLED 1 None))))) = [MIXING]
   \<and> map status (transactions (fst (check_incoming_payment sample_env 100 ''tx1''
         (sample_state (sample_tx COMPLETED 3 (Some ''payout1'')))))) = [MIXING]"
  by (simp add: check_payment_def check_incoming_payment_def sample_defs eval_defs)

text \<open>
  Claim C3, evaluated on the code: the claim says a second detection on a transaction
  already in \<open>MIXING\<close> changes nothing and logs nothing. The second call returns True,
  stamps \<open>mixing_started_at\<close> anew (5 becomes 100) and appends a second
  \<open>PAYMENT_RECEIVED\<close> entry.
\<close>

theorem check_incoming_payment_not_idempotent:
  "map status (transactions detected_once) = [MIXING]
   \<and> map mixing_started_at (transactions detected_once) = [Some 5]
   \<and> map action (logs detected_once) = [PAYMENT_RECEIVED]
   \<and> snd (check_incoming_payment sample_env 100 ''tx1'' detected_once) = True
   \<and> map mixing_started_at (transactions (fst (check_incoming_payment sample_env 100 ''tx1'' detected_once)))
       = [Some 100]
   \<and> map action (logs (fst (check_incoming_payment sample_env 100 ''tx1'' detected_once)))
       = [PAYMENT_RECEIVED, PAYMENT_RECEIVED]"
  by code_simp

section \<open>Backend errors during a mixing round\<close>

text \<open>
  The only backend calls of \<open>perform_mixing_round\<close> are the \<open>getnewaddress\<close> calls
  that fill the pool up to five active entries. If the call number \<open>j\<close> of them is the
  first to fail, the loop raises its error.
\<close>

lemma generate_pools_fails:
  assumes "j < n"
    and "\<forall>k<j. \<exists>a. getnewaddress e (length (rpc_trace s) + k) ''mixing_pool'' = Inr a"
    and "getnewaddress e (length (rpc_trace s) + j) ''mixing_pool'' = Inl m"
  shows "snd (generate_pools e now n s) = Inl (RpcError m)"
  using assms
proof (induction n arbitrary: s j)
  case 0
  then show ?case by simp
next
  case (Suc n)
  show ?case
  proof (cases j)
    case 0
    with Suc.prems show ?thesis by (simp add: Let_def)
  next
    case (Suc j')
    from Suc.prems(2) Suc obtain a where
      a: "getnewaddress e (length (rpc_trace s)) ''mixing_pool'' = Inr a"
      by force
    let ?s1 = "(called (Getnewaddress ''mixing_pool'') s)
                 \<lparr>pools := pools (called (Getnewaddress ''mixing_pool'') s) @ [new_pool now a]\<rparr>"
    have l: "length (rpc_trace ?s1) = Suc (length (rpc_trace s))" by simp
    have "snd (generate_pools e now n ?s1) = Inl (RpcError m)"
    proof (rule Suc.IH [of j'])
      show "j' < n" using Suc.prems(1) Suc by simp
      show "\<forall>k<j'. \<exists>a. getnewaddress e (length (rpc_trace ?s1) + k) ''mixing_pool'' = Inr a"
      proof (intro allI impI)
        fix k assume "k < j'"
        then have "Suc k < j" using Suc by simp
        with Suc.prems(2) show "\<exists>a. getnewaddress e (length (rpc_trace ?s1) + k) ''mixing_pool'' = Inr a"
          unfolding l by (metis add_Suc_shift)
      qed
      show "getnewaddress e (length (rpc_trace ?s1) + j') ''mixing_pool'' = Inl m"
        using Suc.prems(3) Suc unfolding l by simp
    qed
    with a show ?thesis by (simp add: Let_def)
  qed
qed

text \<open>
  Claim C4. A mixing round on a transaction in status \<open>MIXING\<close> during which a backend
  call fails (the call number \<open>j\<close>, whichever it is, after \<open>j\<close> calls that succeeded)
  returns False and leaves the row with status \<open>FAILED\<close>, the backend's error recorded
  as its error message, and every other field, the round counter among them, as it was.
\<close>

theorem perform_mixing_round_backend_error:
  assumes "get_tx s tid = Some t" and "status t = MIXING"
    and "j < 5 - length (query_pools 5 s)"
    and "\<forall>k<j. \<exists>a. getnewaddress e (length (rpc_trace s) + k) ''mixing_pool'' = Inr a"
    and "getnewaddress e (length (rpc_trace s) + j) ''mixing_pool'' = Inl m"
  shows "snd (perform_mixing_round cfg e now tid s) = False
     \<and> get_tx (fst (perform_mixing_round cfg e now tid s)) tid
         = Some (t\<lparr>status := FAILED, error_message := Some (RpcError m)\<rparr>)
     \<and> map_option mixing_rounds_completed (get_tx (fst (perform_mixing_round cfg e now tid s)) tid)
         = Some (mixing_rounds_completed t)"
proof -
  let ?n = "5 - length (query_pools 5 s)"
  obtain s1 r where g: "generate_pools e now ?n s = (s1, r)"
    by (cases "generate_pools e now ?n s")
  have "r = Inl (RpcError m)"
    using generate_pools_fails [OF assms(3,4,5), of now] g by simp
  with g have p: "get_mixing_pool_addresses e now 5 s = (s1, Inl (RpcError m))"
    using assms(3) by (simp add: get_mixing_pool_addresses_def Let_def)
  have t1: "get_tx s1 tid = Some t"
    using get_mixing_pool_addresses_frame'(5) [OF p] assms(1) by simp
  have i: "tx_id t = tid" using assms(1) by (rule get_tx_id)
  have "get_tx (put_tx (t\<lparr>status := FAILED, error_message := Some (RpcError m)\<rparr>) s1) tid
      = Some (t\<lparr>status := FAILED, error_message := Some (RpcError m)\<rparr>)"
    using get_tx_put_tx_same [of s1 "t\<lparr>status := FAILED, error_message := Some (RpcError m)\<rparr>" t]
      t1 i by simp
  then show ?thesis
    using assms(1,2) p by (simp add: perform_mixing_round_def fail_round_def)
qed

text \<open>
  With an empty pool and a backend whose second call times out, the transaction fails
  with its counter still at 1.
\<close>

theorem perform_mixing_round_backend_error_witness:
  "get_tx (sample_state (sample_tx MIXING 1 None)) ''tx1'' = Some (sample_tx MIXING 1 None)
   \<and> status (sample_tx MIXING 1 None) = MIXING
   \<and> (1::nat) < 5 - length (query_pools 5 (sample_state (sample_tx MIXING 1 None)))
   \<and> getnewaddress failing_env 0 ''mixing_pool'' = Inr ''addr''
   \<and> getnewaddress failing_env 1 ''mixing_pool'' = Inl ''timeout''
   \<and> snd (perform_mixing_round default_config failing_env 100 ''tx1''
            (sample_state (sample_tx MIXING 1 None))) = False
   \<and> map (\<lambda>t. (status t, mixing_rounds_completed t, error_message t))
         (transactions (fst (perform_mixing_round default_config failing_env 100 ''tx1''
            (sample_state (sample_tx MIXING 1 None)))))
       = [(FAILED, 1, Some (RpcError ''timeout''))]"
proof -
  let ?s = "sample_state (sample_tx MIXING 1 None)"
  have g: "get_tx ?s ''tx1'' = Some (sample_tx MIXING 1 None)" by code_simp
  have m: "status (sample_tx MIXING 1 None) = MIXING" by code_simp
  have j: "(1::nat) < 5 - length (query_pools 5 ?s)" by code_simp
  have l: "length (rpc_trace ?s) = 0" by code_simp
  have a0: "getnewaddress failing_env 0 ''mixing_pool'' = Inr ''addr''" by code_simp
  have a1: "getnewaddress failing_env 1 ''mixing_pool'' = Inl ''timeout''" by code_simp
  have ok: "\<forall>k<1. \<exists>a. getnewaddress failing_env (length (rpc_trace ?s) + k) ''mixing_pool'' = Inr a"
    using a0 l by simp
  have bad: "getnewaddress failing_env (length (rpc_trace ?s) + 1) ''mixing_pool'' = Inl ''timeout''"
    using a1 l by simp
  have r: "map (\<lambda>t. (status t, mixing_rounds_completed t, error_message t))
         (transactions (fst (perform_mixing_round default_config failing_env 100 ''tx1'' ?s)))
       = [(FAILED, 1, Some (RpcError ''timeout''))]" by code_simp
  from perform_mixing_round_backend_error [OF g m j ok bad, of default_config 100] g m j a0 a1 r
  show ?thesis by simp
qed

text \<open>
  An exception that is not the backend's can come later: a round that completes the
  mixing of a transaction with no \<open>scheduled_output_time\<close> raises AttributeError
  after the counter was incremented, and the row is left \<open>FAILED\<close> with the
  incremented counter.
\<close>

lemma perform_mixing_round_schedule_error:
  assumes "get_tx s i = Some t" and "status t = MIXING"
    and "get_mixing_pool_addresses e now 5 s = (s1, Inr addrs)" and "addrs \<noteq> []"
    and "MIXING_ROUNDS cfg \<le> mixing_rounds_completed t + 1"
    and "scheduled_output_time t = None"
  shows "snd (perform_mixing_round cfg e now i s) = False
     \<and> map_option (\<lambda>u. (status u, mixing_rounds_completed u, error_message u))
           (get_tx (fst (perform_mixing_round cfg e now i s)) i)
         = Some (FAILED, mixing_rounds_completed t + 1, Some AttributeError)"
proof -
  have i: "tx_id t = i" using assms(1) by (rule get_tx_id)
  have t1: "get_tx s1 i = Some t"
    using get_mixing_pool_addresses_frame'(5) [OF assms(3)] assms(1) by simp
  have p: "\<And>u v s'. tx_id u = i \<Longrightarrow> get_tx s' i = Some v \<Longrightarrow> get_tx (put_tx u s') i = Some u"
    using get_tx_put_tx_same by metis
  obtain a where "random_choice (random_source e (random_draws s1)) addrs = Inr a"
    using assms(4) by (simp add: random_choice_def)
  then show ?thesis
    using assms i t1 p
    by (simp add: perform_mixing_round_def Let_def schedule_output_transaction_def
          fail_round_def)
qed

section \<open>What the entry points do to a row\<close>

lemma find_append_Some:
  "find P xs = Some x \<Longrightarrow> find P (xs @ ys) = Some x"
  by (induction xs) (auto split: if_splits)

lemma step_transactions:
  assumes "step cfg s s'" and "distinct (map tx_id (transactions s))"
  shows "list_all2 (row_step cfg) (transactions s) (transactions s')
     \<or> (\<exists>t. transactions s' = transactions s @ [t]
            \<and> tx_id t \<notin> tx_id ` set (transactions s)
            \<and> status t = PENDING \<and> mixing_rounds_completed t = 0)
     \<or> (\<exists>P. transactions s' = filter P (transactions s))"
  using assms
proof (cases rule: step.cases)
  case (step_create new_id e now amount out_addr sid ip ua)
  from create_mixing_transaction_transactions [of cfg e now new_id amount out_addr sid ip ua s]
  show ?thesis using step_create by auto
next
  case (step_mixer new_id e now sid ip ua f)
  then show ?thesis by (simp add: mixer_transactions)
next
  case (step_check_payment e now sid tid)
  then show ?thesis using assms(2) by (simp add: check_payment_row_step)
next
  case (step_check_pending_payments e now)
  then show ?thesis
    using assms(2) by (simp add: check_pending_payments_def check_pending_loop_row_step)
next
  case (step_process_mixing e now tid)
  then show ?thesis using assms(2) by (simp add: process_mixing_row_step)
next
  case (step_process_mixing_rounds e now)
  then show ?thesis
    using assms(2) by (simp add: process_mixing_rounds_def mixing_rounds_loop_row_step)
next
  case (step_send_scheduled_outputs e now)
  then show ?thesis
    using assms(2) by (simp add: send_scheduled_outputs_def outputs_loop_row_step)
next
  case (step_cleanup_old_transactions now)
  then show ?thesis by (auto simp: cleanup_old_transactions_def Let_def)
qed

lemma step_row:
  assumes "step cfg s s'" and d: "distinct (map tx_id (transactions s))"
    and u: "get_tx s i = Some u" and u': "get_tx s' i = Some u'"
  shows "row_step cfg u u'"
proof -
  from step_transactions [OF assms(1) d] consider
    (upd) "list_all2 (row_step cfg) (transactions s) (transactions s')"
    | (new) t where "transactions s' = transactions s @ [t]"
    | (del) P where "transactions s' = filter P (transactions s)"
    by blast
  then show ?thesis
  proof cases
    case upd
    from list_all2_find [OF upd, of i u] u u' show ?thesis by (simp add: get_tx_def)
  next
    case new
    with u u' have "u' = u" by (simp add: get_tx_def find_append_Some)
    then show ?thesis by simp
  next
    case del
    from u' have "u' \<in> set (transactions s')" "tx_id u' = i"
      by (auto dest: get_tx_mem get_tx_id)
    with del have "u' \<in> set (transactions s)" by simp
    with d have "get_tx s (tx_id u') = Some u'" by (rule get_tx_distinct)
    with u \<open>tx_id u' = i\<close> have "u' = u" by simp
    then show ?thesis by simp
  qed
qed

lemma list_all2_row_step_ok:
  assumes "list_all2 (row_step cfg) xs ys" and "\<forall>x\<in>set xs. rounds_ok cfg x"
  shows "\<forall>y\<in>set ys. rounds_ok cfg y"
  using assms by (induction rule: list_all2_induct) (auto simp: row_step_def)

lemma step_invariant:
  assumes "step cfg s s'" and n: "0 \<le> MIXING_ROUNDS cfg"
    and d: "distinct (map tx_id (transactions s))"
    and ok: "\<forall>t\<in>set (transactions s). rounds_ok cfg t"
  shows "distinct (map tx_id (transactions s')) \<and> (\<forall>t\<in>set (transactions s'). rounds_ok cfg t)"
proof -
  from step_transactions [OF assms(1) d] consider
    (upd) "list_all2 (row_step cfg) (transactions s) (transactions s')"
    | (new) t where "transactions s' = transactions s @ [t]"
        "tx_id t \<notin> tx_id ` set (transactions s)" "status t = PENDING"
        "mixing_rounds_completed t = 0"
    | (del) P where "transactions s' = filter P (transactions s)"
    by blast
  then show ?thesis
  proof cases
    case upd
    then show ?thesis using d ok by (simp add: row_step_distinct list_all2_row_step_ok)
  next
    case new
    then show ?thesis using d ok n by (auto simp: rounds_ok_def)
  next
    case del
    then show ?thesis using d ok by (simp add: distinct_map_filter)
  qed
qed

lemma reachable_invariant:
  assumes "reachable cfg s" and "0 \<le> MIXING_ROUNDS cfg"
  shows "distinct (map tx_id (transactions s)) \<and> (\<forall>t\<in>set (transactions s). rounds_ok cfg t)"
  using assms(1) unfolding reachable_def
proof (induction rule: rtranclp_induct)
  case base
  then show ?case by (simp add: init_state_def)
next
  case (step y z)
  then show ?case using step_invariant [OF step(2) assms(2)] by blast
qed

section \<open>The round counter\<close>

text \<open>
  Claim C5. Under a fixed configuration with a round count that is not negative, in
  every state the system reaches through its entry points every transaction has
  \<open>mixing_rounds_completed\<close> at most \<open>MIXING_ROUNDS\<close>, and a transaction in status
  \<open>COMPLETED\<close> has exactly \<open>MIXING_ROUNDS\<close> rounds; and no step from such a state
  lowers the counter of a transaction. (\<open>perform_mixing_round\<close> itself would count
  past the bound; its callers in tasks.py only call it below the bound.)
\<close>

theorem mixing_rounds_completed_bounded:
  assumes "reachable cfg s" and "0 \<le> MIXING_ROUNDS cfg"
  shows "(\<forall>t\<in>set (transactions s).
            mixing_rounds_completed t \<le> MIXING_ROUNDS cfg
            \<and> (status t = COMPLETED \<longrightarrow> mixing_rounds_completed t = MIXING_ROUNDS cfg))
     \<and> (\<forall>s' i t t'. step cfg s s' \<and> get_tx s i = Some t \<and> get_tx s' i = Some t'
            \<longrightarrow> mixing_rounds_completed t \<le> mixing_rounds_completed t')"
proof -
  from reachable_invariant [OF assms] have
    d: "distinct (map tx_id (transactions s))"
    and ok: "\<forall>t\<in>set (transactions s). rounds_ok cfg t"
    by simp_all
  have "\<And>s' i t t'. step cfg s s' \<Longrightarrow> get_tx s i = Some t \<Longrightarrow> get_tx s' i = Some t'
          \<Longrightarrow> mixing_rounds_completed t \<le> mixing_rounds_completed t'"
    using step_row [OF _ d] by (simp add: row_step_def)
  with ok show ?thesis by (auto simp: rounds_ok_def)
qed

text \<open>
  The sample run ends with the transaction completed after exactly three rounds.
\<close>

lemma run5_tx:
  "map (\<lambda>t. (tx_id t, status t, mixing_rounds_completed t)) (transactions run5)
     = [(''tx1'', COMPLETED, 3)]"
  by code_simp

lemma reachable_run5: "reachable default_config run5"
proof -
  have 1: "step default_config init_state run1"
    unfolding run1_def by (rule step_create) (simp add: init_state_def)
  have 2: "step default_config run1 run2"
    unfolding run2_def by (rule step_check_payment)
  have 3: "step default_config run2 run3"
    unfolding run3_def by (rule step_process_mixing_rounds)
  have 4: "step default_config run3 run4"
    unfolding run4_def by (rule step_process_mixing_rounds)
  have 5: "step default_config run4 run5"
    unfolding run5_def by (rule step_process_mixing_rounds)
  from 1 2 3 4 5 show ?thesis
    unfolding reachable_def by (meson rtranclp.rtrancl_into_rtrancl rtranclp.rtrancl_refl)
qed

theorem mixing_rounds_completed_bounded_witness:
  "reachable default_config run5 \<and> 0 \<le> MIXING_ROUNDS default_config
   \<and> MIXING_ROUNDS default_config = 3
   \<and> map (\<lambda>t. (tx_id t, status t, mixing_rounds_completed t)) (transactions run5)
       = [(''tx1'', COMPLETED, 3)]
   \<and> list_all (rounds_ok default_config) (transactions run5)"
proof -
  have n: "0 \<le> MIXING_ROUNDS default_config" by (simp add: default_config_def)
  from mixing_rounds_completed_bounded [OF reachable_run5 n]
  have "list_all (rounds_ok default_config) (transactions run5)"
    by (simp add: list_all_iff rounds_ok_def)
  with reachable_run5 n run5_tx show ?thesis by (simp add: default_config_def)
qed

section \<open>The destination of a round hop\<close>

text \<open>
  Claim C6 as stated fails: \<open>random.choice\<close> draws from the candidate list without
  looking at the current holding address. Here the transaction holds its funds at
  \<open>pool1\<close>, the candidates are \<open>pool1\<close> to \<open>pool5\<close>, the draw picks the first, and
  the round succeeds with \<open>pool1\<close> as the new holding address.
\<close>

theorem perform_mixing_round_same_address:
  "map mixing_address (transactions pooled_state) = [Some ''pool1'']
   \<and> snd (get_mixing_pool_addresses sample_env 100 5 pooled_state)
       = Inr [''pool1'', ''pool2'', ''pool3'', ''pool4'', ''pool5'']
   \<and> snd (perform_mixing_round default_config sample_env 100 ''tx1'' pooled_state) = True
   \<and> map mixing_address
         (transactions (fst (perform_mixing_round default_config sample_env 100 ''tx1'' pooled_state)))
       = [Some ''pool1'']"
  by code_simp

lemma random_choice_mem: "random_choice r xs = Inr a \<Longrightarrow> a \<in> set xs"
  by (auto simp: random_choice_def split: if_splits)

text \<open>
  Claim C6, amended. After a round that succeeds, the holding address of the transaction
  is one of the candidates \<open>get_mixing_pool_addresses\<close> returned; it differs from the
  previous holding address whenever that address is not among the candidates.
\<close>

theorem perform_mixing_round_picks_from_pool:
  assumes "get_tx s tid = Some t"
    and "snd (perform_mixing_round cfg e now tid s) = True"
  shows "\<exists>addrs a t'. snd (get_mixing_pool_addresses e now 5 s) = Inr addrs
           \<and> a \<in> set addrs
           \<and> get_tx (fst (perform_mixing_round cfg e now tid s)) tid = Some t'
           \<and> mixing_address t' = Some a
           \<and> (mixing_address t \<notin> Some ` set addrs \<longrightarrow> mixing_address t' \<noteq> mixing_address t)"
proof -
  have st: "status t = MIXING"
    using assms by (auto simp: perform_mixing_round_def split: if_splits)
  have i: "tx_id t = tid" using assms(1) by (rule get_tx_id)
  obtain s1 r where p: "get_mixing_pool_addresses e now 5 s = (s1, r)"
    by (cases "get_mixing_pool_addresses e now 5 s")
  have t1: "get_tx s1 tid = Some t"
    using get_mixing_pool_addresses_frame'(5) [OF p] assms(1) by simp
  obtain addrs where r: "r = Inr addrs"
    using assms st p by (cases r) (auto simp: perform_mixing_round_def)
  obtain a where c: "random_choice (random_source e (random_draws s1)) addrs = Inr a"
    using assms st p r
    by (cases "random_choice (random_source e (random_draws s1)) addrs")
      (auto simp: perform_mixing_round_def)
  have a: "a \<in> set addrs" using c by (rule random_choice_mem)
  let ?t1 = "t\<lparr>mixing_address := Some a,
                mixing_rounds_completed := mixing_rounds_completed t + 1\<rparr>"
  let ?t2 = "?t1\<lparr>status := COMPLETED, completed_at := Some now\<rparr>"
  have g1: "\<And>s'. get_tx s' tid = Some t \<Longrightarrow> get_tx (put_tx ?t1 s') tid = Some ?t1"
    using get_tx_put_tx_same [of _ ?t1 t] i by simp
  have g2: "\<And>s' u. get_tx s' tid = Some u \<Longrightarrow> get_tx (put_tx ?t2 s') tid = Some ?t2"
    using get_tx_put_tx_same [of _ ?t2] i by simp
  have "\<exists>t'. get_tx (fst (perform_mixing_round cfg e now tid s)) tid = Some t'
          \<and> mixing_address t' = Some a"
  proof (cases "MIXING_ROUNDS cfg \<le> mixing_rounds_completed t + 1")
    case False
    then show ?thesis
      using assms(1) st p r c t1 g1 by (simp add: perform_mixing_round_def Let_def)
  next
    case True
    then obtain tm where tm: "scheduled_output_time t = Some tm"
      using assms st p r c
      by (cases "scheduled_output_time t")
        (auto simp: perform_mixing_round_def Let_def schedule_output_transaction_def)
    show ?thesis
      using assms(1) st p r c t1 g1 g2 True tm
      by (simp add: perform_mixing_round_def Let_def schedule_output_transaction_def)
  qed
  then obtain t' where t': "get_tx (fst (perform_mixing_round cfg e now tid s)) tid = Some t'"
    "mixing_address t' = Some a"
    by blast
  have "mixing_address t \<notin> Some ` set addrs \<longrightarrow> mixing_address t' \<noteq> mixing_address t"
    using a t'(2) by (metis imageI)
  with a p r t' show ?thesis by simp
qed

theorem perform_mixing_round_picks_from_pool_witness:
  "get_tx pooled_state ''tx1'' = Some (sample_tx MIXING 1 None)
   \<and> snd (perform_mixing_round default_config sample_env 100 ''tx1'' pooled_state) = True
   \<and> (\<exists>addrs a t'. snd (get_mixing_pool_addresses sample_env 100 5 pooled_state) = Inr addrs
           \<and> a \<in> set addrs
           \<and> get_tx (fst (perform_mixing_round default_config sample_env 100 ''tx1'' pooled_state))
                 ''tx1'' = Some t'
           \<and> mixing_address t' = Some a)"
proof -
  have g: "get_tx pooled_state ''tx1'' = Some (sample_tx MIXING 1 None)" by code_simp
  have r: "snd (perform_mixing_round default_config sample_env 100 ''tx1'' pooled_state) = True"
    by code_simp
  from perform_mixing_round_picks_from_pool [OF g r] g r show ?thesis by blast
qed

section \<open>Validation of a request\<close>

text \<open>
  Claim C7 as stated fails: \<open>create_mixing_transaction\<close> validates nothing. Called
  with an amount of 0.0001, below the minimum of 0.001, and an address the backend
  reports invalid, it stores the transaction and returns it.
\<close>

theorem create_mixing_transaction_no_validation:
  "\<not> validate_amount default_config \<lparr>coefficient = 1, exponent = -4\<rparr>
   \<and> snd (validate_bitcoin_address rejecting_env ''not-an-address'' init_state) = False
   \<and> map (\<lambda>t. (tx_id t, input_amount t, output_address t, status t))
        (transactions (fst (create_mixing_transaction default_config rejecting_env 100 ''tx9''
           \<lparr>coefficient = 1, exponent = -4\<rparr> ''not-an-address'' ''sess1'' ''ip'' ''ua'' init_state)))
       = [(''tx9'', \<lparr>coefficient = 10000, exponent = -8\<rparr>, ''not-an-address'', PENDING)]
   \<and> isl (snd (create_mixing_transaction default_config rejecting_env 100 ''tx9''
           \<lparr>coefficient = 1, exponent = -4\<rparr> ''not-an-address'' ''sess1'' ''ip'' ''ua'' init_state)) = False"
  by code_simp

text \<open>The form validates exactly the requests that meet the conditions in words.\<close>

lemma validate_on_submit_valid:
  "(snd (validate_on_submit cfg e f s) = Inr True) = request_valid cfg e f s"
  by (auto simp: validate_on_submit_def request_valid_def amount_field_ok_def
        validate_amount_def dec_less_def validate_output_address_def
        validate_bitcoin_address_def Let_def split_beta
        split: form_decimal.splits sum.splits option.splits if_splits)

text \<open>
  The handler, whatever its activity check answers: a request that does not meet the
  conditions ends with the form page or the error page and leaves the tables alone, and
  a confirmation page is the result of \<open>create_mixing_transaction\<close> on the data of a
  request that meets them.
\<close>

lemma mixer_with_rejects:
  assumes "\<not> request_valid cfg e f s"
  shows "(snd (mixer_with chk cfg e now new_id sid ip ua f s) = FormPage
          \<or> snd (mixer_with chk cfg e now new_id sid ip ua f s) = Abort 500)
     \<and> transactions (fst (mixer_with chk cfg e now new_id sid ip ua f s)) = transactions s
     \<and> logs (fst (mixer_with chk cfg e now new_id sid ip ua f s)) = logs s"
proof -
  obtain s1 r where v: "validate_on_submit cfg e f s = (s1, r)"
    by (cases "validate_on_submit cfg e f s")
  have n: "r \<noteq> Inr True"
    using assms validate_on_submit_valid [of cfg e f s] v by auto
  have fr: "transactions s1 = transactions s" "logs s1 = logs s"
    using v by (rule validate_on_submit_frame')+
  show ?thesis
  proof (cases r)
    case (Inl err)
    with v fr show ?thesis by (simp add: mixer_with_def)
  next
    case (Inr b)
    with n have "b = False" by simp
    with v fr Inr show ?thesis by (simp add: mixer_with_def)
  qed
qed

lemma mixer_with_confirms:
  assumes "snd (mixer_with chk cfg e now new_id sid ip ua f s) = ConfirmPage t"
  shows "request_valid cfg e f s
     \<and> (\<exists>a. form_amount f = Amount a
            \<and> create_mixing_transaction cfg e now new_id a (form_output_address f) sid ip ua
                  (fst (validate_on_submit cfg e f s))
                = (fst (mixer_with chk cfg e now new_id sid ip ua f s), Inr t))"
proof -
  have "request_valid cfg e f s"
    using assms mixer_with_rejects [of cfg e f s chk now new_id sid ip ua] by auto
  moreover have "\<exists>a. form_amount f = Amount a
            \<and> create_mixing_transaction cfg e now new_id a (form_output_address f) sid ip ua
                  (fst (validate_on_submit cfg e f s))
                = (fst (mixer_with chk cfg e now new_id sid ip ua f s), Inr t)"
    using assms
    by (auto simp: mixer_with_def
          split: prod.splits sum.splits bool.splits form_decimal.splits)
  ultimately show ?thesis by simp
qed

text \<open>
  \<open>create_mixing_transaction\<close> stores what it is given whenever the backend yields an
  address, the delay range is not empty and the columns take the three amounts.
\<close>

lemma create_mixing_transaction_stores:
  assumes "getnewaddress e (length (rpc_trace s)) ''mixer_input'' = Inr in_addr"
    and "DELAY_MINUTES_MIN cfg \<le> DELAY_MINUTES_MAX cfg"
    and "numeric_16_8 a = Inr stored_amount"
    and "numeric_16_8 (dec_mul a (FEE_PERCENT cfg)) = Inr stored_fee"
    and "numeric_16_8 (dec_sub a (dec_mul a (FEE_PERCENT cfg))) = Inr stored_out"
  shows "\<exists>t. snd (create_mixing_transaction cfg e now new_id a out_addr sid ip ua s) = Inr t
     \<and> transactions (fst (create_mixing_transaction cfg e now new_id a out_addr sid ip ua s))
         = transactions s @ [t]
     \<and> tx_id t = new_id \<and> input_amount t = stored_amount \<and> output_address t = out_addr
     \<and> status t = PENDING"
  using assms by (simp add: create_mixing_transaction_def random_randint_def Let_def)

text \<open>
  Claim C7, amended. \<open>create_mixing_transaction\<close> validates nothing and has no
  failure for an invalid amount or address: whenever the backend yields an input
  address, the delay range is not empty and the \<open>Numeric(16, 8)\<close> columns take the
  three amounts, it stores the transaction for whatever amount and output address it is
  given. The validation is the form's, run by the handler of the \<open>/mixer\<close> route
  (taken as a function of the request, with the activity check it calls as a parameter)
  before it calls \<open>create_mixing_transaction\<close>: the form validates exactly when it is
  submitted, its amount is a finite Decimal that is not zero and lies within
  \<open>MIN_AMOUNT\<close> and \<open>MAX_AMOUNT\<close>, and its output address is not blank and is
  reported valid by the backend's \<open>validateaddress\<close>; a request that does not meet
  these conditions is answered with the form page or the error page 500 and leaves no
  transaction stored and no log entry written; and a confirmation page is only ever the
  result of \<open>create_mixing_transaction\<close> called with the amount and the address of a
  request that meets them.
\<close>

theorem mixer_creates_only_validated:
  "((snd (validate_on_submit cfg e f s) = Inr True) = request_valid cfg e f s)
   \<and> (\<not> request_valid cfg e f s \<longrightarrow>
        (snd (mixer_with chk cfg e now new_id sid ip ua f s) = FormPage
          \<or> snd (mixer_with chk cfg e now new_id sid ip ua f s) = Abort 500)
        \<and> transactions (fst (mixer_with chk cfg e now new_id sid ip ua f s)) = transactions s
        \<and> logs (fst (mixer_with chk cfg e now new_id sid ip ua f s)) = logs s)
   \<and> (\<forall>t. snd (mixer_with chk cfg e now new_id sid ip ua f s) = ConfirmPage t \<longrightarrow>
        request_valid cfg e f s
        \<and> (\<exists>a. form_amount f = Amount a
              \<and> create_mixing_transaction cfg e now new_id a (form_output_address f) sid ip ua
                    (fst (validate_on_submit cfg e f s))
                  = (fst (mixer_with chk cfg e now new_id sid ip ua f s), Inr t)))
   \<and> (\<forall>a out_addr in_addr stored_amount stored_fee stored_out.
        getnewaddress e (length (rpc_trace s)) ''mixer_input'' = Inr in_addr
        \<and> DELAY_MINUTES_MIN cfg \<le> DELAY_MINUTES_MAX cfg
        \<and> numeric_16_8 a = Inr stored_amount
        \<and> numeric_16_8 (dec_mul a (FEE_PERCENT cfg)) = Inr stored_fee
        \<and> numeric_16_8 (dec_sub a (dec_mul a (FEE_PERCENT cfg))) = Inr stored_out
        \<longrightarrow> (\<exists>t. snd (create_mixing_transaction cfg e now new_id a out_addr sid ip ua s) = Inr t
              \<and> transactions (fst (create_mixing_transaction cfg e now new_id a out_addr sid ip ua s))
                  = transactions s @ [t]
              \<and> tx_id t = new_id \<and> input_amount t = stored_amount
              \<and> output_address t = out_addr \<and> status t = PENDING))"
  using validate_on_submit_valid [of cfg e f s]
    mixer_with_rejects [of cfg e f s chk now new_id sid ip ua]
    mixer_with_confirms [of chk cfg e now new_id sid ip ua f s]
    create_mixing_transaction_stores [of e s _ cfg _ _ _ _ now new_id _ sid ip ua]
  by (intro conjI allI impI) blast+

text \<open>
  With an activity check that finds nothing, the form for 1.0 is confirmed and its
  transaction stored; the form for 0.0001 gets the form page back from the handler as
  the module has it, and the form with a NaN amount the error page; and
  \<open>create_mixing_transaction\<close> itself stores the amount 0.0001 for an address the
  backend rejects.
\<close>

theorem mixer_creates_only_validated_witness:
  "snd (validate_on_submit default_config sample_env good_form init_state) = Inr True
   \<and> request_valid default_config sample_env good_form init_state
   \<and> (case snd (mixer_with no_suspicion default_config sample_env 0 ''tx1'' ''sess1'' ''ip'' ''ua''
                  good_form init_state) of
        ConfirmPage t \<Rightarrow> tx_id t = ''tx1'' \<and> status t = PENDING
      | _ \<Rightarrow> False)
   \<and> map tx_id (transactions (fst (mixer_with no_suspicion default_config sample_env 0 ''tx1''
         ''sess1'' ''ip'' ''ua'' good_form init_state))) = [''tx1'']
   \<and> snd (validate_on_submit default_config sample_env small_form init_state) = Inr False
   \<and> \<not> request_valid default_config sample_env small_form init_state
   \<and> snd (mixer default_config sample_env 0 ''tx1'' ''sess1'' ''ip'' ''ua'' small_form init_state)
       = FormPage
   \<and> transactions (fst (mixer default_config sample_env 0 ''tx1'' ''sess1'' ''ip'' ''ua''
         small_form init_state)) = []
   \<and> logs (fst (mixer default_config sample_env 0 ''tx1'' ''sess1'' ''ip'' ''ua''
         small_form init_state)) = []
   \<and> snd (mixer_with no_suspicion default_config sample_env 0 ''tx1'' ''sess1'' ''ip'' ''ua''
            nan_form init_state) = Abort 500
   \<and> numeric_16_8 \<lparr>coefficient = 1, exponent = -4\<rparr> = Inr \<lparr>coefficient = 10000, exponent = -8\<rparr>
   \<and> isl (snd (create_mixing_transaction default_config rejecting_env 0 ''tx1''
           \<lparr>coefficient = 1, exponent = -4\<rparr> ''not-an-address'' ''sess1'' ''ip'' ''ua''
           init_state)) = False"
proof -
  note thm_good = mixer_creates_only_validated
    [of default_config sample_env good_form init_state no_suspicion 0 "''tx1''" "''sess1''"
      "''ip''" "''ua''"]
  note thm_small = mixer_creates_only_validated
    [of default_config sample_env small_form init_state check_suspicious_activity 0 "''tx1''"
      "''sess1''" "''ip''" "''ua''"]
  note thm_create = mixer_creates_only_validated
    [of default_config rejecting_env good_form init_state no_suspicion 0 "''tx1''" "''sess1''"
      "''ip''" "''ua''"]
  have vg: "snd (validate_on_submit default_config sample_env good_form init_state) = Inr True"
    by code_simp
  have rg: "request_valid default_config sample_env good_form init_state"
    using thm_good vg by blast
  have cg: "case snd (mixer_with no_suspicion default_config sample_env 0 ''tx1'' ''sess1'' ''ip''
                  ''ua'' good_form init_state) of
        ConfirmPage t \<Rightarrow> tx_id t = ''tx1'' \<and> status t = PENDING
      | _ \<Rightarrow> False"
    by code_simp
  have tg: "map tx_id (transactions (fst (mixer_with no_suspicion default_config sample_env 0
         ''tx1'' ''sess1'' ''ip'' ''ua'' good_form init_state))) = [''tx1'']"
    by code_simp
  have vs: "snd (validate_on_submit default_config sample_env small_form init_state) = Inr False"
    by code_simp
  have rs: "\<not> request_valid default_config sample_env small_form init_state"
    using thm_small vs by auto
  have e: "transactions init_state = []" "logs init_state = []"
    by (simp_all add: init_state_def)
  have ps: "snd (mixer default_config sample_env 0 ''tx1'' ''sess1'' ''ip'' ''ua'' small_form
        init_state) = FormPage"
    by code_simp
  have ts: "transactions (fst (mixer default_config sample_env 0 ''tx1'' ''sess1'' ''ip'' ''ua''
         small_form init_state)) = []
     \<and> logs (fst (mixer default_config sample_env 0 ''tx1'' ''sess1'' ''ip'' ''ua''
         small_form init_state)) = []"
    using thm_small rs e by (simp add: mixer_def)
  have pn: "snd (mixer_with no_suspicion default_config sample_env 0 ''tx1'' ''sess1'' ''ip'' ''ua''
            nan_form init_state) = Abort 500"
    by code_simp
  have g: "getnewaddress rejecting_env (length (rpc_trace init_state)) ''mixer_input'' = Inr ''addr''"
    by code_simp
  have dl: "DELAY_MINUTES_MIN default_config \<le> DELAY_MINUTES_MAX default_config"
    by code_simp
  have n1: "numeric_16_8 \<lparr>coefficient = 1, exponent = -4\<rparr> = Inr \<lparr>coefficient = 10000, exponent = -8\<rparr>"
    by code_simp
  have n2: "numeric_16_8 (dec_mul \<lparr>coefficient = 1, exponent = -4\<rparr> (FEE_PERCENT default_config))
      = Inr \<lparr>coefficient = 300, exponent = -8\<rparr>"
    by code_simp
  have n3: "numeric_16_8 (dec_sub \<lparr>coefficient = 1, exponent = -4\<rparr>
        (dec_mul \<lparr>coefficient = 1, exponent = -4\<rparr> (FEE_PERCENT default_config)))
      = Inr \<lparr>coefficient = 9700, exponent = -8\<rparr>"
    by code_simp
  from thm_create g dl n1 n2 n3
  have "\<exists>t. snd (create_mixing_transaction default_config rejecting_env 0 ''tx1''
           \<lparr>coefficient = 1, exponent = -4\<rparr> ''not-an-address'' ''sess1'' ''ip'' ''ua''
           init_state) = Inr t"
    by blast
  then have cr: "isl (snd (create_mixing_transaction default_config rejecting_env 0 ''tx1''
           \<lparr>coefficient = 1, exponent = -4\<rparr> ''not-an-address'' ''sess1'' ''ip'' ''ua''
           init_state)) = False"
    by auto
  from vg rg cg tg vs rs ps ts pn n1 cr show ?thesis by simp
qed

section \<open>The amounts of a transaction\<close>










section \<open>Retention cleanup\<close>

text \<open>
  Claim C10. \<open>cleanup_old_transactions\<close> deletes a transaction exactly when its
  \<open>created_at\<close> lies more than 30 days before the task's clock reading: a row of the
  table survives if and only if it is not older than the cutoff, whatever its status and
  whether or not its payout was ever sent, and the task reports the number of rows it
  deleted. The statement puts no condition on \<open>status\<close> or \<open>output_txid\<close>.
\<close>

theorem cleanup_old_transactions_by_age:
  assumes "t \<in> set (transactions s)"
  shows "(t \<in> set (transactions (fst (cleanup_old_transactions now s))))
           = (\<not> created_at t < now - days 30)
         \<and> snd (cleanup_old_transactions now s)
           = length (filter (\<lambda>u. created_at u < now - days 30) (transactions s))"
  using assms by (simp add: cleanup_old_transactions_def Let_def)

text \<open>
  On the sample table the pending, the mixing and the completed but unpaid transaction
  are all purged on day 31; only the transaction created that day is kept.
\<close>

theorem cleanup_old_transactions_by_age_witness:
  "sample_tx MIXING 1 None\<lparr>tx_id := ''tx2''\<rparr> \<in> set (transactions old_unpaid_state)
   \<and> status (sample_tx MIXING 1 None\<lparr>tx_id := ''tx2''\<rparr>) = MIXING
   \<and> created_at (sample_tx MIXING 1 None\<lparr>tx_id := ''tx2''\<rparr>) < days 31 - days 30
   \<and> sample_tx MIXING 1 None\<lparr>tx_id := ''tx2''\<rparr>
        \<notin> set (transactions (fst (cleanup_old_transactions (days 31) old_unpaid_state)))
   \<and> map tx_id (transactions (fst (cleanup_old_transactions (days 31) old_unpaid_state)))
        = [''tx4'']
   \<and> snd (cleanup_old_transactions (days 31) old_unpaid_state) = 3"
proof -
  have m: "sample_tx MIXING 1 None\<lparr>tx_id := ''tx2''\<rparr> \<in> set (transactions old_unpaid_state)"
    by (simp add: old_unpaid_state_def init_state_def)
  have c: "created_at (sample_tx MIXING 1 None\<lparr>tx_id := ''tx2''\<rparr>) < days 31 - days 30"
    by (simp add: sample_tx_def days_def)
  have "map tx_id (transactions (fst (cleanup_old_transactions (days 31) old_unpaid_state)))
        = [''tx4'']"
    by (simp add: cleanup_old_transactions_def Let_def old_unpaid_state_def init_state_def
          sample_tx_def days_def)
  moreover have "status (sample_tx MIXING 1 None\<lparr>tx_id := ''tx2''\<rparr>) = MIXING"
    by (simp add: sample_tx_def)
  moreover have "snd (cleanup_old_transactions (days 31) old_unpaid_state) = 3"
    using cleanup_old_transactions_by_age [OF m, of "days 31"]
    by (simp add: old_unpaid_state_def init_state_def sample_tx_def days_def)
  ultimately show ?thesis
    using cleanup_old_transactions_by_age [OF m, of "days 31"] m c by simp
qed

end
